theory Spec2Isabelle
  imports Main
begin

section \<open>Values exchanged over the wire\<close>

text \<open>
  Messages are parsed with \<^verbatim>\<open>JSON.parse\<close>, so a message and its payload are JSON values.
  Numbers are kept as integers: no function below computes with them.
\<close>

datatype json =
    JNull
  | JBool bool
  | JNum int
  | JStr string
  | JArr "json list"
  | JObj "(string \<times> json) list"

text \<open>
  Reading a property \<^verbatim>\<open>v.k\<close> of a parsed value, for the keys the server reads
  (\<^verbatim>\<open>type\<close>, \<^verbatim>\<open>payload\<close>, \<^verbatim>\<open>secret\<close>); \<open>None\<close> is JavaScript's \<^verbatim>\<open>undefined\<close>.
  Primitives and arrays have no such property. Reading a property of \<^verbatim>\<open>null\<close> raises and is
  handled where it happens, not here.
\<close>

fun get_prop :: "json \<Rightarrow> string \<Rightarrow> json option" where
  "get_prop (JObj kvs) k = map_of kvs k"
| "get_prop _ k = None"

text \<open>\<^verbatim>\<open>payload?.secret\<close>: \<^verbatim>\<open>undefined\<close> when the payload is \<^verbatim>\<open>undefined\<close> or \<^verbatim>\<open>null\<close>.\<close>

fun opt_secret :: "json option \<Rightarrow> json option" where
  "opt_secret None = None"
| "opt_secret (Some JNull) = None"
| "opt_secret (Some v) = get_prop v ''secret''"

section \<open>Agent connection server (laptop-server/src/websocket.js)\<close>

datatype readyState = CONNECTING | OPEN | CLOSING | CLOSED

datatype js_error = TypeError | SyntaxError

text \<open>
  The objects the server passes to \<^verbatim>\<open>send\<close>. The \<^verbatim>\<open>type\<close> field of each is given by
  \<open>kind_of\<close>. A result carries the request's \<^verbatim>\<open>type\<close> value, from which the source builds
  the string \<^verbatim>\<open>`${type}_result`\<close>.
\<close>

datatype server_msg =
    Welcome
  | AuthSuccess
  | AuthFailed
  | NotAuthenticated
  | InvalidFormat js_error
  | HandlerError string "json option"
  | UnknownType "json option"
  | Progress json
  | Result "json option" json

datatype msg_kind =
    K_welcome | K_auth_success | K_auth_failed | K_error | K_progress | K_result "json option"

fun kind_of :: "server_msg \<Rightarrow> msg_kind" where
  "kind_of Welcome = K_welcome"
| "kind_of AuthSuccess = K_auth_success"
| "kind_of AuthFailed = K_auth_failed"
| "kind_of NotAuthenticated = K_error"
| "kind_of (InvalidFormat e) = K_error"
| "kind_of (HandlerError m t) = K_error"
| "kind_of (UnknownType t) = K_error"
| "kind_of (Progress p) = K_progress"
| "kind_of (Result t r) = K_result t"

text \<open>A transport: its ready state and the frames written to it so far.\<close>

record socket =
  readyState :: readyState
  sent :: "server_msg list"

record client =
  cid :: nat
  ws :: socket
  authenticated :: bool

text \<open>
  A handler is called with the payload and a progress callback. Its run is summarised by the
  progress events it emits, in order, and by how it ends: \<open>Inl\<close> the message of the error it
  throws, \<open>Inr\<close> the value it returns. It may change the state \<open>'w\<close> of the engines behind the
  server.
\<close>

type_synonym 'w handler = "json option \<Rightarrow> 'w \<Rightarrow> (json list \<times> (string + json)) \<times> 'w"

text \<open>
  \<open>handlers srv t\<close> is \<^verbatim>\<open>this.handlers[type]\<close>. \<open>calls\<close> logs every handler invocation
  with the message type and payload it was made for.
\<close>

record 'w server =
  sharedSecret :: string
  handlers :: "json option \<Rightarrow> 'w handler option"
  clients :: "nat \<rightharpoonup> client"
  world :: 'w
  calls :: "(json option \<times> json option) list"

definition send :: "socket \<Rightarrow> server_msg \<Rightarrow> socket" where
  "send s data = (if readyState s = OPEN then s\<lparr>sent := sent s @ [data]\<rparr> else s)"

text \<open>
  \<^verbatim>\<open>handleMessage(client, message)\<close>. Destructuring \<^verbatim>\<open>null\<close> raises a TypeError before
  anything else happens. The handler's run is taken as one step.
\<close>

fun handleMessage :: "'w server \<Rightarrow> client \<Rightarrow> json \<Rightarrow> js_error + (client \<times> 'w server)" where
  "handleMessage srv c JNull = Inl TypeError"
| "handleMessage srv c message =
    (let type = get_prop message ''type''; payload = get_prop message ''payload'' in
     if type = Some (JStr ''auth'') then
       (if opt_secret payload = Some (JStr (sharedSecret srv))
        then Inr (c\<lparr>authenticated := True, ws := send (ws c) AuthSuccess\<rparr>, srv)
        else Inr (c\<lparr>ws := send (ws c) AuthFailed\<rparr>, srv))
     else if \<not> authenticated c then
       Inr (c\<lparr>ws := send (ws c) NotAuthenticated\<rparr>, srv)
     else
       (case handlers srv type of
          Some handler \<Rightarrow>
            (case handler payload (world srv) of
               ((progress, outcome), w') \<Rightarrow>
                 let s1 = foldl send (ws c) (map Progress progress);
                     srv' = srv\<lparr>world := w', calls := calls srv @ [(type, payload)]\<rparr>
                 in (case outcome of
                       Inr result \<Rightarrow> Inr (c\<lparr>ws := send s1 (Result type result)\<rparr>, srv')
                     | Inl err \<Rightarrow> Inr (c\<lparr>ws := send s1 (HandlerError err type)\<rparr>, srv')))
        | None \<Rightarrow> Inr (c\<lparr>ws := send (ws c) (UnknownType type)\<rparr>, srv)))"

text \<open>
  The \<^verbatim>\<open>'message'\<close> listener of a connection: \<open>None\<close> is data that \<^verbatim>\<open>JSON.parse\<close> rejects.
  Any error raised while handling is answered with an \<^verbatim>\<open>error\<close> reply. The listener closes
  over the client object; here it is looked up by its id, and the listener of a connection
  that is gone does not run.
\<close>

definition on_message :: "'w server \<Rightarrow> nat \<Rightarrow> json option \<Rightarrow> 'w server" where
  "on_message srv i data =
    (case clients srv i of
       None \<Rightarrow> srv
     | Some c \<Rightarrow>
        (case data of
           None \<Rightarrow> srv\<lparr>clients := (clients srv)(i \<mapsto> c\<lparr>ws := send (ws c) (InvalidFormat SyntaxError)\<rparr>)\<rparr>
         | Some message \<Rightarrow>
            (case handleMessage srv c message of
               Inl e \<Rightarrow> srv\<lparr>clients := (clients srv)(i \<mapsto> c\<lparr>ws := send (ws c) (InvalidFormat e)\<rparr>)\<rparr>
             | Inr (c', srv') \<Rightarrow> srv'\<lparr>clients := (clients srv')(i \<mapsto> c')\<rparr>)))"

text \<open>The \<^verbatim>\<open>'connection'\<close> listener: a new unauthenticated client, then the welcome.\<close>

definition on_connection :: "'w server \<Rightarrow> nat \<Rightarrow> socket \<Rightarrow> 'w server" where
  "on_connection srv i s =
    srv\<lparr>clients := (clients srv)(i \<mapsto> \<lparr>cid = i, ws = send s Welcome, authenticated = False\<rparr>)\<rparr>"

definition on_close :: "'w server \<Rightarrow> nat \<Rightarrow> 'w server" where
  "on_close srv i = srv\<lparr>clients := (clients srv)(i := None)\<rparr>"

text \<open>\<^verbatim>\<open>broadcast(data)\<close>: to every authenticated client.\<close>

definition broadcast :: "'w server \<Rightarrow> server_msg \<Rightarrow> 'w server" where
  "broadcast srv data =
    srv\<lparr>clients := (\<lambda>i. case clients srv i of
                           None \<Rightarrow> None
                         | Some c \<Rightarrow> Some (if authenticated c then c\<lparr>ws := send (ws c) data\<rparr> else c))\<rparr>"

text \<open>The messages of one connection, handled in arrival order.\<close>

fun on_messages :: "'w server \<Rightarrow> nat \<Rightarrow> json option list \<Rightarrow> 'w server" where
  "on_messages srv i [] = srv"
| "on_messages srv i (d # ds) = on_messages (on_message srv i d) i ds"

text \<open>A message that authenticates: of type \<^verbatim>\<open>auth\<close> and carrying the shared secret.\<close>

definition auth_ok :: "'w server \<Rightarrow> json option \<Rightarrow> bool" where
  "auth_ok srv data =
    (case data of
       None \<Rightarrow> False
     | Some message \<Rightarrow>
         message \<noteq> JNull \<and> get_prop message ''type'' = Some (JStr ''auth'') \<and>
         opt_secret (get_prop message ''payload'') = Some (JStr (sharedSecret srv)))"

text \<open>
  A server with one unauthenticated connection whose transport is in state \<open>r\<close> and that
  has been sent the welcome, a handler table that knows \<^verbatim>\<open>cancel\<close> only, and a
  \<^verbatim>\<open>cancel\<close> request.
\<close>

definition demo_handlers :: "json option \<Rightarrow> unit handler option" where
  "demo_handlers t =
    (if t = Some (JStr ''cancel'')
     then Some (\<lambda>payload w. (([], Inr (JObj [(''cancelled'', JBool False)])), w))
     else None)"

definition demo_client :: "readyState \<Rightarrow> client" where
  "demo_client r = \<lparr>cid = 0, ws = \<lparr>readyState = r, sent = [Welcome]\<rparr>, authenticated = False\<rparr>"

definition demo_server :: "readyState \<Rightarrow> unit server" where
  "demo_server r =
    \<lparr>sharedSecret = ''s3cret'', handlers = demo_handlers,
     clients = [0 \<mapsto> demo_client r], world = (), calls = []\<rparr>"

definition cancel_msg :: json where
  "cancel_msg = JObj [(''type'', JStr ''cancel''), (''payload'', JObj [])]"

section \<open>Process orchestrator (laptop-server/src/gemini.js)\<close>

datatype role = User | Model

record turn =
  role :: role
  turn_text :: string

datatype stream = Stdout | Stderr

datatype 'a promise = Pending | Resolved 'a | Rejected string

record exec_result =
  success :: bool
  result_output :: string
  result_error :: "string option"
  exitCode :: "int option"

definition resolve :: "'a promise \<Rightarrow> 'a \<Rightarrow> 'a promise" where
  "resolve p v = (case p of Pending \<Rightarrow> Resolved v | _ \<Rightarrow> p)"

definition reject :: "'a promise \<Rightarrow> string \<Rightarrow> 'a promise" where
  "reject p e = (case p of Pending \<Rightarrow> Rejected e | _ \<Rightarrow> p)"

text \<open>\<^verbatim>\<open>text.includes(sub)\<close>: \<open>sub\<close> occurs in \<open>s\<close> as a contiguous run.\<close>

fun str_includes :: "string \<Rightarrow> string \<Rightarrow> bool" where
  "str_includes [] sub = (sub = [])"
| "str_includes (c # cs) sub = (take (length sub) (c # cs) = sub \<or> str_includes cs sub)"

text \<open>
  \<^verbatim>\<open>String.prototype.trim\<close> on text whose code units are below 256: white space and line
  terminators are the code units 9 to 13, 32 and 160.
\<close>

definition is_space :: "char \<Rightarrow> bool" where
  "is_space c = (of_char c \<in> {9, 10, 11, 12, 13, 32, 160 :: nat})"

definition trim :: "string \<Rightarrow> string" where
  "trim s = rev (dropWhile is_space (rev (dropWhile is_space s)))"

text \<open>
  The runner: \<open>histories\<close> is the map from a target's path to its array of turns,
  \<open>activeProcess\<close> the one field that holds the child process last spawned. A child process is
  named by its index in \<open>spawned\<close>, which records the working directory each was started in;
  \<open>killed\<close> lists the processes that were sent \<^verbatim>\<open>kill()\<close>.
\<close>

record runner =
  histories :: "string \<rightharpoonup> turn list"
  activeProcess :: "nat option"
  spawned :: "string list"
  killed :: "nat list"

text \<open>
  What one call of \<^verbatim>\<open>execute\<close> holds in its closure and does to its surroundings:
  \<open>forwarded\<close> are the arguments \<^verbatim>\<open>onOutput\<close> was called with, \<open>echoed\<close> what was written
  to the server's own console, \<open>tempFile\<close> the content of the input file while it exists.
  \<open>errorOutput\<close> is accumulated by the oldest variant of the runner only.
\<close>

record call =
  target :: string
  proc :: "nat option"
  fullOutput :: string
  errorOutput :: string
  forwarded :: "(stream \<times> string) list"
  echoed :: "(stream \<times> string) list"
  tempFile :: "string option"
  outcome :: "exec_result promise"

definition history_of :: "runner \<Rightarrow> string \<Rightarrow> turn list" where
  "history_of r repoPath = (case histories r repoPath of None \<Rightarrow> [] | Some h \<Rightarrow> h)"

definition push_turn :: "runner \<Rightarrow> string \<Rightarrow> turn \<Rightarrow> runner" where
  "push_turn r repoPath t = r\<lparr>histories := (histories r)(repoPath \<mapsto> history_of r repoPath @ [t])\<rparr>"

definition role_label :: "role \<Rightarrow> string" where
  "role_label ro = (if ro = User then ''User'' else ''Assistant'')"

definition compose_prompt :: "turn list \<Rightarrow> string \<Rightarrow> string" where
  "compose_prompt history prompt =
    (if length history > 0
     then ''PREVIOUS MESSAGES:'' @ [CHR 0x0A] @
          concat (map (\<lambda>msg. role_label (role msg) @ '': '' @ turn_text msg @ [CHR 0x0A]) history) @
          [CHR 0x0A] @ ''CURRENT REQUEST:'' @ [CHR 0x0A]
     else []) @ prompt"

text \<open>
  \<^verbatim>\<open>execute\<close> up to the moment the promise's executor returns. \<open>writeOk\<close> tells whether
  \<^verbatim>\<open>fs.writeFileSync\<close> succeeds; when it raises, the promise is rejected with what was
  raised, here the text \<open>''write failed''\<close>, and nothing is spawned. The array taken from \<open>histories\<close> is never replaced in the map, so the closure's
  \<^verbatim>\<open>history\<close> is the map's entry for \<open>repoPath\<close> throughout.
\<close>

definition execute_start :: "runner \<Rightarrow> string \<Rightarrow> string \<Rightarrow> bool \<Rightarrow> runner \<times> call" where
  "execute_start r repoPath prompt writeOk =
    (let history = history_of r repoPath;
         fullPrompt = compose_prompt history prompt;
         r1 = push_turn r repoPath \<lparr>role = User, turn_text = prompt\<rparr>;
         c0 = \<lparr>target = repoPath, proc = None, fullOutput = [], errorOutput = [],
               forwarded = [], echoed = [], tempFile = None, outcome = Pending\<rparr>
     in if \<not> writeOk then (r1, c0\<lparr>outcome := reject (outcome c0) ''write failed''\<rparr>)
        else let pid = length (spawned r1)
             in (r1\<lparr>spawned := spawned r1 @ [repoPath], activeProcess := Some pid\<rparr>,
                 c0\<lparr>tempFile := Some fullPrompt, proc := Some pid\<rparr>))"

text \<open>The listeners registered on the child process.\<close>

definition on_stdout :: "call \<Rightarrow> string \<Rightarrow> call" where
  "on_stdout c text =
    c\<lparr>fullOutput := fullOutput c @ text,
      echoed := echoed c @ [(Stdout, text)],
      forwarded := forwarded c @ [(Stdout, text)]\<rparr>"

definition on_stderr :: "call \<Rightarrow> string \<Rightarrow> call" where
  "on_stderr c text =
    (let c1 = (if \<not> str_includes text ''Loaded cached credentials''
               then c\<lparr>echoed := echoed c @ [(Stderr, text)]\<rparr> else c)
     in c1\<lparr>forwarded := forwarded c1 @ [(Stderr, text)]\<rparr>)"

definition on_proc_close :: "runner \<times> call \<Rightarrow> int option \<Rightarrow> runner \<times> call" where
  "on_proc_close rc code =
    (case rc of (r, c) \<Rightarrow>
      let r1 = (if code = Some 0 \<and> trim (fullOutput c) \<noteq> []
                then push_turn r (target c) \<lparr>role = Model, turn_text = trim (fullOutput c)\<rparr>
                else r)
      in (r1\<lparr>activeProcess := None\<rparr>,
          c\<lparr>tempFile := None,
            outcome := resolve (outcome c)
              \<lparr>success = (code = Some 0), result_output = fullOutput c, result_error = None, exitCode = code\<rparr>\<rparr>))"

definition on_proc_error :: "runner \<times> call \<Rightarrow> string \<Rightarrow> runner \<times> call" where
  "on_proc_error rc err =
    (case rc of (r, c) \<Rightarrow>
      (r\<lparr>activeProcess := None\<rparr>, c\<lparr>tempFile := None, outcome := reject (outcome c) err\<rparr>))"

text \<open>
  What the child process does, as the events it emits: a chunk on one of its streams, its
  \<^verbatim>\<open>close\<close> with the exit code (\<open>None\<close> is \<^verbatim>\<open>null\<close>, a process ended by a signal), or
  the \<^verbatim>\<open>error\<close> of a process that could not be started.
\<close>

datatype proc_event = Data stream string | Close "int option" | Error string

fun on_event :: "runner \<times> call \<Rightarrow> proc_event \<Rightarrow> runner \<times> call" where
  "on_event (r, c) (Data Stdout text) = (r, on_stdout c text)"
| "on_event (r, c) (Data Stderr text) = (r, on_stderr c text)"
| "on_event (r, c) (Close code) = on_proc_close (r, c) code"
| "on_event (r, c) (Error err) = on_proc_error (r, c) err"

text \<open>
  One call of \<^verbatim>\<open>execute\<close> run to the end of the events of its child process, with no other
  call in between. No listener exists when the input file could not be written.
\<close>

definition execute :: "runner \<Rightarrow> string \<Rightarrow> string \<Rightarrow> bool \<Rightarrow> proc_event list \<Rightarrow> runner \<times> call" where
  "execute r repoPath prompt writeOk events =
    (if writeOk then foldl on_event (execute_start r repoPath prompt writeOk) events
     else execute_start r repoPath prompt writeOk)"

text \<open>\<^verbatim>\<open>cancel(repoPath)\<close>: the argument is not used.\<close>

definition cancel :: "runner \<Rightarrow> string \<Rightarrow> bool \<times> runner" where
  "cancel r repoPath =
    (case activeProcess r of
       Some p \<Rightarrow> (True, r\<lparr>killed := killed r @ [p], activeProcess := None\<rparr>)
     | None \<Rightarrow> (False, r))"

definition new_runner :: runner where
  "new_runner = \<lparr>histories = Map.empty, activeProcess = None, spawned = [], killed = []\<rparr>"

text \<open>
  The variant of the runner that pipes the input file through PowerShell (unnamed/part_004).
  It differs from the one above in the command it spawns and in its two stream listeners,
  which return before \<^verbatim>\<open>onOutput\<close> on a chunk that contains a noise substring.
\<close>

definition on_stdout_p4 :: "call \<Rightarrow> string \<Rightarrow> call" where
  "on_stdout_p4 c text =
    (let c1 = c\<lparr>fullOutput := fullOutput c @ text\<rparr>
     in if str_includes text ''YOLO mode is enabled'' \<or> str_includes text ''Loaded cached credentials''
        then c1
        else c1\<lparr>echoed := echoed c1 @ [(Stdout, text)],
                forwarded := forwarded c1 @ [(Stdout, text)]\<rparr>)"

definition on_stderr_p4 :: "call \<Rightarrow> string \<Rightarrow> call" where
  "on_stderr_p4 c text =
    (if \<not> str_includes text ''Loaded cached credentials'' \<and>
        \<not> str_includes text ''YOLO mode is enabled'' \<and>
        \<not> str_includes text ''Passing args to a child process''
     then c\<lparr>echoed := echoed c @ [(Stderr, text)],
            forwarded := forwarded c @ [(Stderr, text)]\<rparr>
     else c)"

fun on_event_p4 :: "runner \<times> call \<Rightarrow> proc_event \<Rightarrow> runner \<times> call" where
  "on_event_p4 (r, c) (Data Stdout text) = (r, on_stdout_p4 c text)"
| "on_event_p4 (r, c) (Data Stderr text) = (r, on_stderr_p4 c text)"
| "on_event_p4 (r, c) (Close code) = on_proc_close (r, c) code"
| "on_event_p4 (r, c) (Error err) = on_proc_error (r, c) err"

definition execute_p4 :: "runner \<Rightarrow> string \<Rightarrow> string \<Rightarrow> bool \<Rightarrow> proc_event list \<Rightarrow> runner \<times> call" where
  "execute_p4 r repoPath prompt writeOk events =
    (if writeOk then foldl on_event_p4 (execute_start r repoPath prompt writeOk) events
     else execute_start r repoPath prompt writeOk)"

text \<open>
  The oldest variant of the runner (unnamed/part_005): no history and no input file; standard
  error is accumulated and returned as the \<^verbatim>\<open>error\<close> field of a failed run.
\<close>

definition execute_start_p5 :: "runner \<Rightarrow> string \<Rightarrow> string \<Rightarrow> runner \<times> call" where
  "execute_start_p5 r repoPath prompt =
    (let pid = length (spawned r)
     in (r\<lparr>spawned := spawned r @ [repoPath], activeProcess := Some pid\<rparr>,
         \<lparr>target = repoPath, proc = Some pid, fullOutput = [], errorOutput = [],
          forwarded = [], echoed = [], tempFile = None, outcome = Pending\<rparr>))"

fun on_event_p5 :: "runner \<times> call \<Rightarrow> proc_event \<Rightarrow> runner \<times> call" where
  "on_event_p5 (r, c) (Data Stdout text) =
     (r, c\<lparr>fullOutput := fullOutput c @ text, forwarded := forwarded c @ [(Stdout, text)]\<rparr>)"
| "on_event_p5 (r, c) (Data Stderr text) =
     (r, c\<lparr>errorOutput := errorOutput c @ text, forwarded := forwarded c @ [(Stderr, text)]\<rparr>)"
| "on_event_p5 (r, c) (Close code) =
     (r\<lparr>activeProcess := None\<rparr>,
      c\<lparr>outcome := resolve (outcome c)
           (if code = Some 0
            then \<lparr>success = True, result_output = fullOutput c, result_error = None,
                  exitCode = code\<rparr>
            else \<lparr>success = False, result_output = fullOutput c,
                  result_error = Some (errorOutput c), exitCode = code\<rparr>)\<rparr>)"
| "on_event_p5 (r, c) (Error err) =
     (r\<lparr>activeProcess := None\<rparr>,
      c\<lparr>outcome := reject (outcome c) (''Failed to start Gemini CLI: '' @ err)\<rparr>)"

definition execute_p5 :: "runner \<Rightarrow> string \<Rightarrow> string \<Rightarrow> proc_event list \<Rightarrow> runner \<times> call" where
  "execute_p5 r repoPath prompt events = foldl on_event_p5 (execute_start_p5 r repoPath prompt) events"

text \<open>
  For stating what a run did: the chunks among the events, with their stream; the text of
  the chunks of one stream; the text of all chunks; whether the process closed.
\<close>

fun chunks_of :: "proc_event list \<Rightarrow> (stream \<times> string) list" where
  "chunks_of [] = []"
| "chunks_of (Data s text # evs) = (s, text) # chunks_of evs"
| "chunks_of (ev # evs) = chunks_of evs"

definition stream_text :: "stream \<Rightarrow> proc_event list \<Rightarrow> string" where
  "stream_text s evs = concat (map snd (filter (\<lambda>ch. fst ch = s) (chunks_of evs)))"

definition combined_output :: "proc_event list \<Rightarrow> string" where
  "combined_output evs = concat (map snd (chunks_of evs))"

fun is_close :: "proc_event \<Rightarrow> bool" where
  "is_close (Close code) = True"
| "is_close ev = False"

fun is_error :: "proc_event \<Rightarrow> bool" where
  "is_error (Error err) = True"
| "is_error ev = False"

definition noisy_p4 :: "stream \<times> string \<Rightarrow> bool" where
  "noisy_p4 ch =
    (str_includes (snd ch) ''YOLO mode is enabled'' \<or>
     str_includes (snd ch) ''Loaded cached credentials'' \<or>
     (fst ch = Stderr \<and> str_includes (snd ch) ''Passing args to a child process''))"

definition user_turn :: "string \<Rightarrow> turn" where
  "user_turn prompt = \<lparr>role = User, turn_text = prompt\<rparr>"

text \<open>Runs of the child process: one that writes to standard error only and exits with
  code 0, and one whose first two chunks carry noise substrings, without and with its close.\<close>

definition warn_run :: "proc_event list" where
  "warn_run = [Data Stderr ''done'', Close (Some 0)]"

definition noise_chunks :: "proc_event list" where
  "noise_chunks = [Data Stdout ''YOLO mode is enabled'', Data Stderr ''Loaded cached credentials'',
                   Data Stdout ''ok'']"

definition noise_run :: "proc_event list" where
  "noise_run = [Data Stdout ''YOLO mode is enabled'', Data Stderr ''Loaded cached credentials'',
                Data Stdout ''ok'', Close (Some 0)]"

text \<open>
  Two calls of \<^verbatim>\<open>execute\<close> for two targets, the second started while the process of the
  first still runs; and the runner after the process of the first has closed, the second
  still running.
\<close>

definition two_started :: "runner \<times> call" where
  "two_started =
    execute_start (fst (execute_start new_runner ''repos/a/x'' ''add README'' True))
      ''repos/b/y'' ''add LICENSE'' True"

definition first_closed :: runner where
  "first_closed =
    fst (on_proc_close
          (fst two_started, snd (execute_start new_runner ''repos/a/x'' ''add README'' True))
          (Some 0))"

section \<open>Client connection manager (the useWebSocket hook, unnamed/part_002)\<close>

text \<open>
  A \<^verbatim>\<open>WebSocket\<close> object of the browser: its ready state, the URL it was made for and the
  frames written to it, each the \<^verbatim>\<open>type\<close> and \<^verbatim>\<open>payload\<close> that were serialised.
\<close>

record transport =
  tstate :: readyState
  url :: string
  frames :: "(string \<times> json option) list"

text \<open>
  The functions kept in the handler map. \<open>OnResult n t\<close> and \<open>OnError n t\<close> are the two
  closures that the \<open>n\<close>-th call of \<^verbatim>\<open>request\<close>, made for type \<open>t\<close>, registers;
  \<open>External n\<close> is a handler that a component registered through \<^verbatim>\<open>onMessage\<close>, which
  does not touch the state of the hook and is taken not to raise. Two handlers are the same object when they are equal.
\<close>

datatype subscriber = OnResult nat string | OnError nat string | External nat

text \<open>
  The refs and state variables of the hook. \<open>transports\<close> holds every \<^verbatim>\<open>WebSocket\<close>
  created so far, \<open>wsRef\<close> the index of the one in \<^verbatim>\<open>wsRef.current\<close>. \<open>timeouts\<close> are the
  request timers that are pending, \<open>settled\<close> the promises returned by \<^verbatim>\<open>request\<close>, both
  by the number of the call.
\<close>

record hook =
  serverUrl :: string
  secret :: string
  wsRef :: "nat option"
  transports :: "transport list"
  messageHandlers :: "string \<rightharpoonup> subscriber list"
  reconnectTimeout :: bool
  timeouts :: "nat list"
  settled :: "nat \<rightharpoonup> json option promise"
  requests :: nat
  isConnected :: bool
  isAuthenticated :: bool
  error_text :: "string option"
  lastMessage :: "json option"

definition tracked :: "hook \<Rightarrow> transport option" where
  "tracked st =
    (case wsRef st of
       None \<Rightarrow> None
     | Some i \<Rightarrow> if i < length (transports st) then Some (transports st ! i) else None)"

text \<open>\<^verbatim>\<open>serverUrl.replace(/^http/, 'ws')\<close>\<close>

definition ws_url :: "string \<Rightarrow> string" where
  "ws_url s = (if take 4 s = ''http'' then ''ws'' @ drop 4 s else s)"

text \<open>
  \<^verbatim>\<open>connect()\<close>. \<open>ctorOk\<close> tells whether \<^verbatim>\<open>new WebSocket(wsUrl)\<close> returns; when it raises,
  the error is caught and shown.
\<close>

definition connect :: "hook \<Rightarrow> bool \<Rightarrow> hook" where
  "connect st ctorOk =
    (case tracked st of
       Some t \<Rightarrow>
         if tstate t = OPEN \<or> tstate t = CONNECTING then st
         else if ctorOk
         then st\<lparr>wsRef := Some (length (transports st)),
                 transports := transports st @ [\<lparr>tstate = CONNECTING, url = ws_url (serverUrl st), frames = []\<rparr>]\<rparr>
         else st\<lparr>error_text := Some ''Failed to connect''\<rparr>
     | None \<Rightarrow>
         if ctorOk
         then st\<lparr>wsRef := Some (length (transports st)),
                 transports := transports st @ [\<lparr>tstate = CONNECTING, url = ws_url (serverUrl st), frames = []\<rparr>]\<rparr>
         else st\<lparr>error_text := Some ''Failed to connect''\<rparr>)"

text \<open>The \<^verbatim>\<open>onopen\<close> and \<^verbatim>\<open>onclose\<close> listeners of the transport with index \<open>i\<close>.\<close>

definition transport_open :: "hook \<Rightarrow> nat \<Rightarrow> hook" where
  "transport_open st i =
    (if i < length (transports st)
     then let t = transports st ! i
          in st\<lparr>transports := (transports st)
                   [i := t\<lparr>tstate := OPEN,
                           frames := frames t @ [(''auth'', Some (JObj [(''secret'', JStr (secret st))]))]\<rparr>],
                 isConnected := True, error_text := None\<rparr>
     else st)"

definition transport_close :: "hook \<Rightarrow> nat \<Rightarrow> nat \<Rightarrow> hook" where
  "transport_close st i code =
    (if i < length (transports st)
     then st\<lparr>transports := (transports st)[i := (transports st ! i)\<lparr>tstate := CLOSED\<rparr>],
             isConnected := False, isAuthenticated := False, wsRef := None,
             reconnectTimeout := (if code \<noteq> 1000 then True else reconnectTimeout st)\<rparr>
     else st)"

text \<open>
  \<^verbatim>\<open>disconnect()\<close>: \<^verbatim>\<open>close(1000, ...)\<close> starts the closing handshake of a transport that is
  open or opening and does nothing to one that is closing or closed.
\<close>

definition disconnect :: "hook \<Rightarrow> hook" where
  "disconnect st =
    (let st1 = st\<lparr>reconnectTimeout := False\<rparr>
     in case wsRef st1 of
          None \<Rightarrow> st1
        | Some i \<Rightarrow>
            st1\<lparr>transports :=
                  (if i < length (transports st1) \<and>
                      (tstate (transports st1 ! i) = OPEN \<or> tstate (transports st1 ! i) = CONNECTING)
                   then (transports st1)[i := (transports st1 ! i)\<lparr>tstate := CLOSING\<rparr>]
                   else transports st1),
                wsRef := None\<rparr>)"

text \<open>\<^verbatim>\<open>send(type, payload)\<close>: whether the message was written.\<close>

definition client_send :: "hook \<Rightarrow> string \<Rightarrow> json option \<Rightarrow> bool \<times> hook" where
  "client_send st type payload =
    (case wsRef st of
       None \<Rightarrow> (False, st)
     | Some i \<Rightarrow>
         if i < length (transports st) \<and> tstate (transports st ! i) = OPEN
         then (True, st\<lparr>transports := (transports st)
                          [i := (transports st ! i)\<lparr>frames := frames (transports st ! i) @ [(type, payload)]\<rparr>]\<rparr>)
         else (False, st))"

text \<open>
  \<^verbatim>\<open>onMessage(type, handler)\<close> and the unsubscribe function it returns, which removes the
  first occurrence of the handler from the array of its type, if there is one. The array of
  a type is never taken out of the map, so the unsubscribe function always finds it.
\<close>

definition onMessage :: "hook \<Rightarrow> string \<Rightarrow> subscriber \<Rightarrow> hook" where
  "onMessage st type h =
    st\<lparr>messageHandlers := (messageHandlers st)
         (type \<mapsto> (case messageHandlers st type of None \<Rightarrow> [] | Some hs \<Rightarrow> hs) @ [h])\<rparr>"

definition unsubscribe :: "hook \<Rightarrow> string \<Rightarrow> subscriber \<Rightarrow> hook" where
  "unsubscribe st type h =
    (case messageHandlers st type of
       None \<Rightarrow> st
     | Some hs \<Rightarrow> st\<lparr>messageHandlers := (messageHandlers st)(type \<mapsto> remove1 h hs)\<rparr>)"

definition clearTimeout :: "hook \<Rightarrow> nat \<Rightarrow> hook" where
  "clearTimeout st n = st\<lparr>timeouts := removeAll n (timeouts st)\<rparr>"

definition settle :: "hook \<Rightarrow> nat \<Rightarrow> (json option promise \<Rightarrow> json option promise) \<Rightarrow> hook" where
  "settle st n f =
    (case settled st n of
       None \<Rightarrow> st
     | Some p \<Rightarrow> st\<lparr>settled := (settled st)(n \<mapsto> f p)\<rparr>)"

text \<open>
  \<^verbatim>\<open>request(type, payload)\<close>: the executor of the promise, run at the call. Returns the number
  of the call, under which its timer and its promise are kept.
\<close>

definition request :: "hook \<Rightarrow> string \<Rightarrow> json option \<Rightarrow> nat \<times> hook" where
  "request st type payload =
    (let n = requests st;
         responseType = type @ ''_result'';
         st1 = st\<lparr>requests := Suc n, timeouts := timeouts st @ [n],
                  settled := (settled st)(n \<mapsto> Pending)\<rparr>;
         st2 = onMessage st1 responseType (OnResult n type);
         st3 = onMessage st2 ''error'' (OnError n type)
     in case client_send st3 type payload of
          (True, st4) \<Rightarrow> (n, st4)
        | (False, st4) \<Rightarrow>
            (n, settle (unsubscribe (unsubscribe (clearTimeout st4 n) responseType (OnResult n type))
                          ''error'' (OnError n type))
                  n (\<lambda>p. reject p ''Not connected'')))"

text \<open>The timer of call \<open>n\<close> fires, unless it was cleared.\<close>

definition timeout_fires :: "hook \<Rightarrow> nat \<Rightarrow> hook" where
  "timeout_fires st n =
    (if n \<in> set (timeouts st)
     then settle (st\<lparr>timeouts := removeAll n (timeouts st)\<rparr>) n (\<lambda>p. reject p ''Request timeout'')
     else st)"

text \<open>
  The text of \<^verbatim>\<open>new Error(error.message)\<close>; a message that is not a string is kept as the
  empty text.
\<close>

definition error_message :: "json \<Rightarrow> string" where
  "error_message e = (case get_prop e ''message'' of Some (JStr m) \<Rightarrow> m | _ \<Rightarrow> [])"

text \<open>
  Calling a handler with an argument. The error closure reads \<^verbatim>\<open>error.originalType\<close>, which
  raises a TypeError when the argument is \<^verbatim>\<open>undefined\<close> or \<^verbatim>\<open>null\<close>.
\<close>

fun call_handler :: "hook \<Rightarrow> subscriber \<Rightarrow> json option \<Rightarrow> js_error option \<times> hook" where
  "call_handler st (OnResult n type) arg =
     (None, settle (unsubscribe (clearTimeout st n) (type @ ''_result'') (OnResult n type))
              n (\<lambda>p. resolve p arg))"
| "call_handler st (OnError n type) None = (Some TypeError, st)"
| "call_handler st (OnError n type) (Some JNull) = (Some TypeError, st)"
| "call_handler st (OnError n type) (Some e) =
     (if get_prop e ''originalType'' = Some (JStr type)
      then (None, settle (unsubscribe (unsubscribe (clearTimeout st n) (type @ ''_result'') (OnResult n type))
                            ''error'' (OnError n type))
                    n (\<lambda>p. reject p (error_message e)))
      else (None, st))"
| "call_handler st (External n) arg = (None, st)"

text \<open>
  \<^verbatim>\<open>handlers.forEach(handler => handler(arg))\<close> on the array kept for \<open>type\<close>: the indices
  below the length the array had at the start are visited in order, those the array no
  longer has are passed over, and a handler that raises ends the loop.
\<close>

function forEach_handlers :: "hook \<Rightarrow> string \<Rightarrow> json option \<Rightarrow> nat \<Rightarrow> nat \<Rightarrow> js_error option \<times> hook" where
  "forEach_handlers st type arg k len =
    (if k < len then
       (case messageHandlers st type of
          None \<Rightarrow> (None, st)
        | Some hs \<Rightarrow>
            if k < length hs then
              (case call_handler st (hs ! k) arg of
                 (Some e, st') \<Rightarrow> (Some e, st')
               | (None, st') \<Rightarrow> forEach_handlers st' type arg (Suc k) len)
            else forEach_handlers st type arg (Suc k) len)
     else (None, st))"
  by pat_completeness auto
termination
  by (relation "measure (\<lambda>(st, type, arg, k, len). len - k)") auto

definition dispatch :: "hook \<Rightarrow> string \<Rightarrow> json option \<Rightarrow> js_error option \<times> hook" where
  "dispatch st type arg =
    (case messageHandlers st type of
       None \<Rightarrow> (None, st)
     | Some hs \<Rightarrow> forEach_handlers st type arg 0 (length hs))"

text \<open>
  The \<^verbatim>\<open>onmessage\<close> listener; \<open>None\<close> is data that \<^verbatim>\<open>JSON.parse\<close> rejects. Whatever is
  raised is caught and logged, and what was done before stays done. Handlers are kept under
  strings, so a \<^verbatim>\<open>type\<close> that is not a string finds none.
\<close>

definition on_inbound :: "hook \<Rightarrow> json option \<Rightarrow> hook" where
  "on_inbound st data =
    (case data of
       None \<Rightarrow> st
     | Some message \<Rightarrow>
         let st1 = st\<lparr>lastMessage := Some message\<rparr>
         in if message = JNull then st1
            else
              let type = get_prop message ''type'';
                  st2 = (if type = Some (JStr ''auth_success'') then st1\<lparr>isAuthenticated := True\<rparr>
                         else if type = Some (JStr ''auth_failed'')
                         then st1\<lparr>error_text := Some ''Authentication failed. Check your shared secret.'',
                                  isAuthenticated := False\<rparr>
                         else st1)
              in case (case type of Some (JStr t) \<Rightarrow> dispatch st2 t (get_prop message ''payload'')
                                  | _ \<Rightarrow> (None, st2)) of
                   (Some e, st3) \<Rightarrow> st3
                 | (None, st3) \<Rightarrow> snd (dispatch st3 ''*'' (Some message)))"

definition new_hook :: "string \<Rightarrow> string \<Rightarrow> hook" where
  "new_hook u s =
    \<lparr>serverUrl = u, secret = s, wsRef = None, transports = [], messageHandlers = Map.empty,
     reconnectTimeout = False, timeouts = [], settled = Map.empty, requests = 0,
     isConnected = False, isAuthenticated = False, error_text = None, lastMessage = None\<rparr>"

definition live :: "hook \<Rightarrow> transport list" where
  "live st = filter (\<lambda>t. tstate t = OPEN \<or> tstate t = CONNECTING) (transports st)"

text \<open>A hook whose transport is open, and a request made on it.\<close>

definition open_hook :: hook where
  "open_hook = transport_open (connect (new_hook ''http://localhost:3001'' ''s3cret'') True) 0"

definition pending_request :: hook where
  "pending_request = snd (request open_hook ''clone_repo'' (Some (JObj [(''owner'', JStr ''a''), (''repo'', JStr ''x'')])))"

definition clone_result :: json where
  "clone_result = JObj [(''type'', JStr ''clone_repo_result''),
                        (''payload'', JObj [(''action'', JStr ''cloned'')])]"

text \<open>
  A hook that was connected, disconnected and connected again, whose second transport has
  opened, and whose first transport then reports its close: the \<^verbatim>\<open>onclose\<close> listener of
  the first clears \<^verbatim>\<open>wsRef.current\<close>, which held the second.
\<close>

definition stale_close_hook :: hook where
  "stale_close_hook =
    transport_close
      (transport_open
        (connect
          (disconnect
            (transport_open (connect (new_hook ''http://localhost:3001'' ''s3cret'') True) 0))
          True)
        1)
      0 1000"

text \<open>
  Two \<^verbatim>\<open>error\<close> messages for that request: one that carries its fields in a
  \<^verbatim>\<open>payload\<close>, and one as the server writes it for a handler that raised, with
  \<^verbatim>\<open>message\<close> and \<^verbatim>\<open>originalType\<close> beside \<^verbatim>\<open>type\<close> and no payload.
\<close>

definition error_with_payload :: json where
  "error_with_payload =
    JObj [(''type'', JStr ''error''),
          (''payload'', JObj [(''message'', JStr ''Handler error: push rejected''),
                              (''originalType'', JStr ''clone_repo'')])]"

definition error_from_server :: json where
  "error_from_server =
    JObj [(''type'', JStr ''error''), (''message'', JStr ''Handler error: push rejected''),
          (''originalType'', JStr ''clone_repo'')]"

section \<open>Repository state manager (laptop-server/src/git.js)\<close>

text \<open>
  A path is the list of its segments. Owner and repository names are single segments, as
  the names of the hosting platform are, so \<^verbatim>\<open>path.join(reposDir, owner, repo)\<close> appends
  them and \<^verbatim>\<open>path.dirname\<close> drops the last segment.
\<close>

type_synonym path = "string list"

definition getRepoPath :: "path \<Rightarrow> string \<Rightarrow> string \<Rightarrow> path" where
  "getRepoPath reposDir owner repo = reposDir @ [owner, repo]"

definition dirname :: "path \<Rightarrow> path" where
  "dirname p = butlast p"

definition remote_url :: "string \<Rightarrow> string \<Rightarrow> string \<Rightarrow> string" where
  "remote_url githubToken owner repo =
    ''https://'' @ githubToken @ ''@github.com/'' @ owner @ ''/'' @ repo @ ''.git''"

text \<open>
  The commands the manager gives to the version-control library and to the file system. They
  are not code of the repository: what they do is described by the small model below, and
  \<open>fails\<close> tells for each command, at each working directory, whether it raises.
\<close>

datatype git_cmd =
    MkDir
  | AddConfig string string
  | Add string
  | Status
  | Commit string
  | RevParse "string list"
  | Remote "string list"
  | Push string string
  | Pull string string
  | Clone string

datatype git_error = NoSuchDirectory path | CommandFailed path git_cmd

text \<open>
  A working copy: its configuration, the files changed but not staged, the files staged, the
  messages of its commits (oldest first), the URL of \<^verbatim>\<open>origin\<close> and the current branch.
\<close>

record working_copy =
  config :: "(string \<times> string) list"
  unstaged :: "string list"
  staged :: "string list"
  commits :: "string list"
  origin :: string
  head_branch :: string

text \<open>
  The world of the manager: the directories that exist, the working copies, every push made
  (the URL pushed to, the branch and the commits it carried), and every command run, in order.
\<close>

record git_world =
  dirs :: "path set"
  copies :: "path \<rightharpoonup> working_copy"
  pushes :: "(string \<times> string \<times> string list) list"
  journal :: "(path \<times> git_cmd) list"
  fails :: "path \<Rightarrow> git_cmd \<Rightarrow> bool"

type_synonym 'a io = "git_world \<Rightarrow> (git_error + 'a) \<times> git_world"

definition return_io :: "'a \<Rightarrow> 'a io" where
  "return_io a w = (Inr a, w)"

text \<open>\<^verbatim>\<open>await\<close>: an operation that raises ends the function; what was done stays done.\<close>

definition then_do :: "'a io \<Rightarrow> ('a \<Rightarrow> 'b io) \<Rightarrow> 'b io" where
  "then_do m f w = (case m w of (Inl e, w') \<Rightarrow> (Inl e, w') | (Inr a, w') \<Rightarrow> f a w')"

text \<open>\<^verbatim>\<open>p.catch(() => q)\<close>\<close>

definition or_else :: "'a io \<Rightarrow> 'a io \<Rightarrow> 'a io" where
  "or_else m h w = (case m w of (Inl e, w') \<Rightarrow> h w' | (Inr a, w') \<Rightarrow> (Inr a, w'))"

text \<open>\<^verbatim>\<open>simpleGit(repoPath)\<close> raises when the directory does not exist.\<close>

definition simpleGit :: "path \<Rightarrow> unit io" where
  "simpleGit p w = (if p \<in> dirs w then (Inr (), w) else (Inl (NoSuchDirectory p), w))"

text \<open>
  A command run in the working copy at \<open>p\<close>: it is entered in the journal; it raises when
  \<open>fails\<close> says so or when there is no working copy at \<open>p\<close>; otherwise \<open>f\<close> gives its result
  and what it does to the working copy.
\<close>

definition in_copy :: "path \<Rightarrow> git_cmd \<Rightarrow> (working_copy \<Rightarrow> 'a \<times> working_copy) \<Rightarrow> 'a io" where
  "in_copy p cmd f w =
    (let w1 = w\<lparr>journal := journal w @ [(p, cmd)]\<rparr>
     in case copies w1 p of
          None \<Rightarrow> (Inl (CommandFailed p cmd), w1)
        | Some c \<Rightarrow>
            if fails w1 p cmd then (Inl (CommandFailed p cmd), w1)
            else (case f c of (a, c') \<Rightarrow> (Inr a, w1\<lparr>copies := (copies w1)(p \<mapsto> c')\<rparr>)))"








definition git_pull :: "path \<Rightarrow> string \<Rightarrow> string \<Rightarrow> unit io" where
  "git_pull p remote branch = in_copy p (Pull remote branch) (\<lambda>c. ((), c))"

text \<open>\<^verbatim>\<open>fs.mkdirSync(dir, { recursive: true })\<close> creates the directory and those above it.\<close>

definition mkdirSync :: "path \<Rightarrow> unit io" where
  "mkdirSync p w =
    (let w1 = w\<lparr>journal := journal w @ [(p, MkDir)]\<rparr>
     in if fails w1 p MkDir then (Inl (CommandFailed p MkDir), w1)
        else (Inr (), w1\<lparr>dirs := dirs w1 \<union> set (map (\<lambda>n. take n p) [0..<Suc (length p)])\<rparr>))"

text \<open>
  \<^verbatim>\<open>simpleGit().clone(repoUrl, repoPath)\<close> makes the directory and a working copy in it,
  with no change, whose \<^verbatim>\<open>origin\<close> is the URL.
\<close>

definition git_clone :: "string \<Rightarrow> path \<Rightarrow> unit io" where
  "git_clone repoUrl p w =
    (let w1 = w\<lparr>journal := journal w @ [(p, Clone repoUrl)]\<rparr>
     in if fails w1 p (Clone repoUrl) then (Inl (CommandFailed p (Clone repoUrl)), w1)
        else (Inr (), w1\<lparr>dirs := insert p (dirs w1),
                         copies := (copies w1)(p \<mapsto> \<lparr>config = [], unstaged = [], staged = [],
                            commits = [], origin = repoUrl, head_branch = ''main''\<rparr>)\<rparr>))"

datatype action = Cloned | Pulled

record clone_result =
  action :: action
  path :: path

text \<open>\<^verbatim>\<open>cloneOrPull(owner, repo, githubToken)\<close>\<close>

definition cloneOrPull :: "path \<Rightarrow> string \<Rightarrow> string \<Rightarrow> string \<Rightarrow> clone_result io" where
  "cloneOrPull reposDir owner repo githubToken w =
    (let repoPath = getRepoPath reposDir owner repo;
         repoUrl = remote_url githubToken owner repo
     in if repoPath \<in> dirs w then
          then_do (simpleGit repoPath) (\<lambda>_.
          then_do (or_else (git_pull repoPath ''origin'' ''main'') (git_pull repoPath ''origin'' ''master'')) (\<lambda>_.
          return_io \<lparr>action = Pulled, path = repoPath\<rparr>)) w
        else
          (let ownerDir = dirname repoPath
           in then_do (if ownerDir \<notin> dirs w then mkdirSync ownerDir else return_io ()) (\<lambda>_.
              then_do (git_clone repoUrl repoPath) (\<lambda>_.
              return_io \<lparr>action = Cloned, path = repoPath\<rparr>)) w))"




text \<open>A world with nothing cloned, in which no command fails.\<close>

definition empty_world :: git_world where
  "empty_world = \<lparr>dirs = {[''repos'']}, copies = Map.empty, pushes = [], journal = [],
                   fails = (\<lambda>p cmd. False)\<rparr>"

text \<open>The world after the first clone of a repository, and the same with one file edited.\<close>

definition cloned_world :: git_world where
  "cloned_world = snd (cloneOrPull [''repos''] ''a'' ''x'' ''tok'' empty_world)"


section \<open>Properties of the agent connection server\<close>

lemma send_closed: "readyState s \<noteq> OPEN \<Longrightarrow> send s d = s"
  by (simp add: send_def)

lemma send_open: "readyState s = OPEN \<Longrightarrow> send s d = s\<lparr>sent := sent s @ [d]\<rparr>"
  by (simp add: send_def)

lemma readyState_send: "readyState (send s d) = readyState s"
  by (simp add: send_def)

lemma foldl_send_closed: "readyState s \<noteq> OPEN \<Longrightarrow> foldl send s ds = s"
  by (induction ds) (simp_all add: send_closed)

lemma handleMessage_unauth:
  assumes "\<not> authenticated c" and "get_prop m ''type'' \<noteq> Some (JStr ''auth'')" and "m \<noteq> JNull"
  shows "handleMessage srv c m = Inr (c\<lparr>ws := send (ws c) NotAuthenticated\<rparr>, srv)"
  using assms by (cases m) (simp_all add: Let_def)

lemma on_message_unauth:
  assumes "clients srv i = Some c" and "\<not> authenticated c"
    and "get_prop m ''type'' \<noteq> Some (JStr ''auth'')"
  shows "\<exists>e. kind_of e = K_error \<and>
             on_message srv i (Some m) = srv\<lparr>clients := (clients srv)(i \<mapsto> c\<lparr>ws := send (ws c) e\<rparr>)\<rparr>"
proof (cases "m = JNull")
  case True
  then have "on_message srv i (Some m) =
      srv\<lparr>clients := (clients srv)(i \<mapsto> c\<lparr>ws := send (ws c) (InvalidFormat TypeError)\<rparr>)\<rparr>"
    using assms(1) by (simp add: on_message_def)
  then show ?thesis by (intro exI[of _ "InvalidFormat TypeError"]) simp
next
  case False
  then have "on_message srv i (Some m) =
      srv\<lparr>clients := (clients srv)(i \<mapsto> c\<lparr>ws := send (ws c) NotAuthenticated\<rparr>)\<rparr>"
    using assms by (simp add: on_message_def handleMessage_unauth)
  then show ?thesis by (intro exI[of _ NotAuthenticated]) simp
qed

lemma handleMessage_not_auth_ok:
  assumes "\<not> authenticated c" and "\<not> auth_ok srv (Some m)" and "handleMessage srv c m = Inr (c', srv')"
  shows "srv' = srv \<and> \<not> authenticated c'"
  using assms by (cases m) (auto simp: Let_def auth_ok_def split: if_splits)

lemma on_message_not_auth_ok:
  assumes "clients srv i = Some c" and "\<not> authenticated c" and "\<not> auth_ok srv d"
  shows "\<exists>c'. \<not> authenticated c' \<and> on_message srv i d = srv\<lparr>clients := (clients srv)(i \<mapsto> c')\<rparr>"
proof (cases d)
  case None
  then show ?thesis using assms(1,2)
    by (intro exI[of _ "c\<lparr>ws := send (ws c) (InvalidFormat SyntaxError)\<rparr>"])
       (simp add: on_message_def)
next
  case (Some m)
  show ?thesis
  proof (cases "handleMessage srv c m")
    case (Inl e)
    then show ?thesis using assms(1,2) Some
      by (intro exI[of _ "c\<lparr>ws := send (ws c) (InvalidFormat e)\<rparr>"])
         (simp add: on_message_def)
  next
    case (Inr p)
    then obtain c' srv' where p: "handleMessage srv c m = Inr (c', srv')" by (cases p) auto
    from handleMessage_not_auth_ok[OF assms(2) _ p] assms(3) Some
    have "srv' = srv" "\<not> authenticated c'" by auto
    then show ?thesis using assms(1) Some p
      by (intro exI[of _ c']) (simp add: on_message_def)
  qed
qed

lemma auth_ok_clients_upd [simp]: "auth_ok (srv\<lparr>clients := cs\<rparr>) d = auth_ok srv d"
  by (simp add: auth_ok_def split: option.splits)

lemma on_messages_not_auth_ok:
  assumes "clients srv i = Some c" and "\<not> authenticated c" and "\<forall>d \<in> set ds. \<not> auth_ok srv d"
  shows "calls (on_messages srv i ds) = calls srv \<and> world (on_messages srv i ds) = world srv"
  using assms
proof (induction ds arbitrary: srv c)
  case Nil
  then show ?case by simp
next
  case (Cons d ds)
  from Cons.prems have "\<not> auth_ok srv d" by simp
  from on_message_not_auth_ok[OF Cons.prems(1,2) this]
  obtain c' where c': "\<not> authenticated c'"
    and eq: "on_message srv i d = srv\<lparr>clients := (clients srv)(i \<mapsto> c')\<rparr>" by blast
  have "calls (on_messages (on_message srv i d) i ds) = calls (on_message srv i d) \<and>
        world (on_messages (on_message srv i d) i ds) = world (on_message srv i d)"
    using Cons.prems(3) c' by (intro Cons.IH[of _ c']) (simp_all add: eq)
  then show ?case by (simp add: eq)
qed

lemma calls_grow_authenticated:
  assumes "calls (on_message srv i d) \<noteq> calls srv"
  shows "\<exists>c. clients srv i = Some c \<and> authenticated c"
proof (cases "clients srv i")
  case None
  then show ?thesis using assms by (simp add: on_message_def)
next
  case (Some c)
  show ?thesis
  proof (cases "authenticated c")
    case True
    then show ?thesis using Some by simp
  next
    case False
    have "calls (on_message srv i d) = calls srv"
    proof (cases "auth_ok srv d")
      case True
      then obtain m where "d = Some m" "m \<noteq> JNull" "get_prop m ''type'' = Some (JStr ''auth'')"
        by (auto simp: auth_ok_def split: option.splits)
      then show ?thesis using Some by (cases m) (auto simp: on_message_def Let_def)
    next
      case nok: False
      from on_message_not_auth_ok[OF Some False nok] show ?thesis by auto
    qed
    with assms show ?thesis by simp
  qed
qed

lemma handleMessage_clients:
  "handleMessage srv c m = Inr (c', srv') \<Longrightarrow> clients srv' = clients srv"
  by (cases m) (auto simp: Let_def split: if_splits option.splits sum.splits prod.splits)

lemma handleMessage_closed:
  "readyState (ws c) \<noteq> OPEN \<Longrightarrow> handleMessage srv c m = Inr (c', srv') \<Longrightarrow> ws c' = ws c"
  by (cases m)
     (auto simp: Let_def send_closed foldl_send_closed
           split: if_splits option.splits sum.splits prod.splits)

lemma on_message_others: "j \<noteq> i \<Longrightarrow> clients (on_message srv i data) j = clients srv j"
  by (auto simp: on_message_def dest: handleMessage_clients split: option.splits sum.splits)

lemma on_message_closed:
  assumes "clients srv i = Some c" and "readyState (ws c) \<noteq> OPEN"
  shows "map_option ws (clients (on_message srv i data) i) = Some (ws c)"
  using assms
  by (auto simp: on_message_def send_closed dest: handleMessage_closed
           split: option.splits sum.splits)

text \<open>
  Claim C1, as the code has it. On a connection whose \<open>authenticated\<close> flag is false, a
  message whose type is not \<^verbatim>\<open>auth\<close> makes the server pass exactly one \<^verbatim>\<open>error\<close>
  reply to \<open>send\<close> for that connection and changes nothing else: no handler is invoked.
  The reply is written to the transport when it is \<open>OPEN\<close> and dropped otherwise. No
  message at all reaches a handler on such a connection, and a sequence of messages without
  a successful \<^verbatim>\<open>auth\<close> among them reaches none either.
\<close>

theorem unauthenticated_message_gate:
  "clients srv i = Some c \<Longrightarrow> \<not> authenticated c \<Longrightarrow>
   (get_prop m ''type'' \<noteq> Some (JStr ''auth'') \<longrightarrow>
      (\<exists>e. kind_of e = K_error \<and>
           on_message srv i (Some m) =
             srv\<lparr>clients := (clients srv)(i \<mapsto> c\<lparr>ws := send (ws c) e\<rparr>)\<rparr> \<and>
           sent (send (ws c) e) =
             (if readyState (ws c) = OPEN then sent (ws c) @ [e] else sent (ws c)))) \<and>
   calls (on_message srv i d) = calls srv \<and>
   ((\<forall>d \<in> set ds. \<not> auth_ok srv d) \<longrightarrow> calls (on_messages srv i ds) = calls srv)"
proof (intro conjI impI)
  assume c: "clients srv i = Some c" and na: "\<not> authenticated c"
  {
    assume "get_prop m ''type'' \<noteq> Some (JStr ''auth'')"
    from on_message_unauth[OF c na this]
    show "\<exists>e. kind_of e = K_error \<and>
           on_message srv i (Some m) =
             srv\<lparr>clients := (clients srv)(i \<mapsto> c\<lparr>ws := send (ws c) e\<rparr>)\<rparr> \<and>
           sent (send (ws c) e) =
             (if readyState (ws c) = OPEN then sent (ws c) @ [e] else sent (ws c))"
      by (auto simp: send_def)
  }
  show "calls (on_message srv i d) = calls srv"
    using calls_grow_authenticated[of srv i d] c na by auto
  {
    assume "\<forall>d \<in> set ds. \<not> auth_ok srv d"
    from on_messages_not_auth_ok[OF c na this]
    show "calls (on_messages srv i ds) = calls srv" by simp
  }
qed

theorem unauthenticated_message_gate_witness:
  "clients (demo_server OPEN) 0 = Some (demo_client OPEN) \<and>
   \<not> authenticated (demo_client OPEN) \<and>
   get_prop cancel_msg ''type'' \<noteq> Some (JStr ''auth'') \<and>
   \<not> auth_ok (demo_server OPEN) (Some cancel_msg) \<and>
   \<not> auth_ok (demo_server OPEN) None \<and>
   map_option (sent \<circ> ws) (clients (on_message (demo_server OPEN) 0 (Some cancel_msg)) 0)
     = Some [Welcome, NotAuthenticated] \<and>
   calls (on_messages (demo_server OPEN) 0 [Some cancel_msg, None]) = []"
  using unauthenticated_message_gate [of "demo_server OPEN" 0 "demo_client OPEN" cancel_msg
          "Some cancel_msg" "[Some cancel_msg, None]"]
  by (simp add: demo_server_def demo_client_def cancel_msg_def auth_ok_def on_message_def
        send_def Let_def)

text \<open>
  Claim C1 as stated fails where the transport is not open: the connection below is
  unauthenticated and \<open>CLOSING\<close>, the request is not an \<^verbatim>\<open>auth\<close>, and no reply is
  written: the frames sent stay the welcome alone.
\<close>

theorem unauthenticated_reply_counterexample:
  "clients (demo_server CLOSING) 0 = Some (demo_client CLOSING) \<and>
   \<not> authenticated (demo_client CLOSING) \<and>
   get_prop cancel_msg ''type'' \<noteq> Some (JStr ''auth'') \<and>
   clients (on_message (demo_server CLOSING) 0 (Some cancel_msg)) 0 = Some (demo_client CLOSING) \<and>
   sent (ws (demo_client CLOSING)) = [Welcome]"
  by (simp add: demo_server_def demo_client_def cancel_msg_def on_message_def send_def Let_def)

text \<open>
  Claim C10. \<open>send\<close> writes the message when the ready state is \<open>OPEN\<close> and returns the
  transport as it was otherwise. So for a connection whose transport is not open, handling
  any data leaves its transport and every other connection as they were, a broadcast leaves
  the connection as it was, and the welcome of a new connection is dropped.
\<close>

theorem send_only_when_open:
  "(readyState s = OPEN \<longrightarrow> send s d = s\<lparr>sent := sent s @ [d]\<rparr>) \<and>
   (readyState s \<noteq> OPEN \<longrightarrow> send s d = s) \<and>
   (clients srv i = Some c \<and> readyState (ws c) \<noteq> OPEN \<longrightarrow>
      map_option ws (clients (on_message srv i data) i) = Some (ws c) \<and>
      (\<forall>j. j \<noteq> i \<longrightarrow> clients (on_message srv i data) j = clients srv j) \<and>
      clients (broadcast srv d) i = Some c) \<and>
   (readyState s \<noteq> OPEN \<longrightarrow>
      clients (on_connection srv i s) =
        (clients srv)(i \<mapsto> \<lparr>cid = i, ws = s, authenticated = False\<rparr>))"
  by (simp add: send_open send_closed on_message_closed on_message_others broadcast_def
        on_connection_def)

theorem send_only_when_open_witness:
  "send \<lparr>readyState = OPEN, sent = []\<rparr> Welcome = \<lparr>readyState = OPEN, sent = [Welcome]\<rparr> \<and>
   send \<lparr>readyState = CLOSED, sent = []\<rparr> Welcome = \<lparr>readyState = CLOSED, sent = []\<rparr> \<and>
   clients (demo_server CLOSING) 0 = Some (demo_client CLOSING) \<and>
   readyState (ws (demo_client CLOSING)) \<noteq> OPEN \<and>
   map_option ws (clients (on_message (demo_server CLOSING) 0 (Some cancel_msg)) 0)
     = Some (ws (demo_client CLOSING)) \<and>
   clients (broadcast (demo_server CLOSING) Welcome) 0 = Some (demo_client CLOSING)"
  using send_only_when_open [of "\<lparr>readyState = OPEN, sent = []\<rparr>" Welcome
          "demo_server CLOSING" 0 "demo_client CLOSING" "Some cancel_msg"]
        send_only_when_open [of "\<lparr>readyState = CLOSED, sent = []\<rparr>" Welcome
          "demo_server CLOSING" 0 "demo_client CLOSING" "Some cancel_msg"]
  by (simp add: demo_server_def demo_client_def)

section \<open>Properties of the process orchestrator\<close>

lemma history_of_push [simp]:
  "history_of (push_turn r p t) q = (if q = p then history_of r p @ [t] else history_of r q)"
  by (simp add: history_of_def push_turn_def)

lemma history_of_upd [simp]:
  "history_of (r\<lparr>activeProcess := a\<rparr>) q = history_of r q"
  "history_of (r\<lparr>spawned := sp\<rparr>) q = history_of r q"
  "history_of (r\<lparr>killed := k\<rparr>) q = history_of r q"
  by (simp_all add: history_of_def)

lemma execute_start_history:
  "history_of (fst (execute_start r p prompt w)) q =
     (if q = p then history_of r p @ [user_turn prompt] else history_of r q)"
  by (simp add: execute_start_def Let_def user_turn_def)

lemma execute_start_call:
  "target (snd (execute_start r p prompt w)) = p"
  "fullOutput (snd (execute_start r p prompt w)) = []"
  "forwarded (snd (execute_start r p prompt w)) = []"
  "echoed (snd (execute_start r p prompt w)) = []"
  "outcome (snd (execute_start r p prompt True)) = Pending"
  "outcome (snd (execute_start r p prompt False)) = Rejected ''write failed''"
  by (simp_all add: execute_start_def Let_def reject_def)

lemma stream_text_simps [simp]:
  "stream_text s [] = []"
  "stream_text s (Data s' t # evs) = (if s' = s then t @ stream_text s evs else stream_text s evs)"
  "stream_text s (Close code # evs) = stream_text s evs"
  "stream_text s (Error e # evs) = stream_text s evs"
  by (simp_all add: stream_text_def)

lemma chunks_of_append [simp]: "chunks_of (xs @ ys) = chunks_of xs @ chunks_of ys"
  by (induction xs rule: chunks_of.induct) simp_all

lemma stream_text_append [simp]: "stream_text s (xs @ ys) = stream_text s xs @ stream_text s ys"
  by (simp add: stream_text_def)

text \<open>Events other than the close leave the histories alone and accumulate standard output.\<close>

lemma run_no_close:
  assumes "\<not> list_ex is_close evs"
  shows "history_of (fst (foldl on_event (r, c) evs)) q = history_of r q \<and>
         fullOutput (snd (foldl on_event (r, c) evs)) = fullOutput c @ stream_text Stdout evs \<and>
         target (snd (foldl on_event (r, c) evs)) = target c"
  using assms
proof (induction evs arbitrary: r c)
  case Nil
  then show ?case by simp
next
  case (Cons ev evs)
  then have nc: "\<not> list_ex is_close evs" by simp
  show ?case
  proof (cases ev)
    case (Data s t)
    then show ?thesis using Cons.IH[OF nc]
      by (cases s) (simp_all add: on_stdout_def on_stderr_def Let_def)
  next
    case (Close code)
    then show ?thesis using Cons.prems by simp
  next
    case (Error e)
    then show ?thesis using Cons.IH[OF nc] by (simp add: on_proc_error_def)
  qed
qed

lemma run_then_close:
  assumes "\<not> list_ex is_close evs"
  shows "history_of (fst (foldl on_event (r, c) (evs @ [Close code]))) q =
           (if q = target c \<and> code = Some 0 \<and> trim (fullOutput c @ stream_text Stdout evs) \<noteq> []
            then history_of r q @ [\<lparr>role = Model, turn_text = trim (fullOutput c @ stream_text Stdout evs)\<rparr>]
            else history_of r q)"
proof -
  obtain r' c' where rc: "foldl on_event (r, c) evs = (r', c')" by (cases "foldl on_event (r, c) evs")
  from run_no_close[OF assms, of r c] rc
  have h: "\<And>q. history_of r' q = history_of r q"
    and f: "fullOutput c' = fullOutput c @ stream_text Stdout evs" and t: "target c' = target c"
    by simp_all
  show ?thesis by (simp add: rc on_proc_close_def Let_def h f t)
qed


lemma settled_resolve [simp]: "resolve (Rejected e) v = Rejected e" "resolve (Resolved u) v = Resolved u"
  "resolve Pending v = Resolved v"
  by (simp_all add: resolve_def)

lemma settled_reject [simp]: "reject (Rejected e) e' = Rejected e" "reject (Resolved u) e' = Resolved u"
  "reject Pending e' = Rejected e'"
  by (simp_all add: reject_def)

lemma on_event_Data:
  "on_event (r, c) (Data s t) = (r, if s = Stdout then on_stdout c t else on_stderr c t)"
  by (cases s) simp_all

lemma on_event_p5_Data:
  "outcome (snd (on_event_p5 (r, c) (Data s t))) = outcome c"
  by (cases s) simp_all

lemma on_event_settled:
  "outcome c \<noteq> Pending \<Longrightarrow> outcome (snd (on_event (r, c) ev)) = outcome c"
  by (cases ev; cases "outcome c")
     (auto simp: on_event_Data on_stdout_def on_stderr_def on_proc_close_def on_proc_error_def
           Let_def)

lemma run_settled:
  "outcome c \<noteq> Pending \<Longrightarrow> outcome (snd (foldl on_event (r, c) evs)) = outcome c"
proof (induction evs arbitrary: r c)
  case Nil
  then show ?case by simp
next
  case (Cons ev evs)
  obtain r' c' where rc: "on_event (r, c) ev = (r', c')" by (cases "on_event (r, c) ev")
  with on_event_settled[OF Cons.prems, of r ev] have "outcome c' = outcome c" by simp
  with Cons.IH[of c' r'] Cons.prems rc show ?case by simp
qed

lemma run_pending:
  assumes "\<not> list_ex is_close evs" and "\<not> list_ex is_error evs"
  shows "outcome (snd (foldl on_event (r, c) evs)) = outcome c"
  using assms
proof (induction evs arbitrary: r c)
  case Nil
  then show ?case by simp
next
  case (Cons ev evs)
  then show ?case
    by (cases ev) (auto simp: on_event_Data on_stdout_def on_stderr_def Let_def)
qed

lemma run_forwarded:
  "forwarded (snd (foldl on_event (r, c) evs)) = forwarded c @ chunks_of evs \<and>
   echoed (snd (foldl on_event (r, c) evs)) =
     echoed c @ filter (\<lambda>ch. fst ch = Stdout \<or> \<not> str_includes (snd ch) ''Loaded cached credentials'')
                 (chunks_of evs)"
proof (induction evs arbitrary: r c)
  case Nil
  then show ?case by simp
next
  case (Cons ev evs)
  show ?case
  proof (cases ev)
    case (Data s t)
    then show ?thesis using Cons.IH
      by (cases s) (simp_all add: on_stdout_def on_stderr_def Let_def)
  next
    case (Close code)
    then show ?thesis using Cons.IH by (simp add: on_proc_close_def Let_def)
  next
    case (Error e)
    then show ?thesis using Cons.IH by (simp add: on_proc_error_def)
  qed
qed

lemma run_forwarded_p4:
  "forwarded (snd (foldl on_event_p4 (r, c) evs)) =
     forwarded c @ filter (\<lambda>ch. \<not> noisy_p4 ch) (chunks_of evs)"
proof (induction evs arbitrary: r c)
  case Nil
  then show ?case by simp
next
  case (Cons ev evs)
  show ?case
  proof (cases ev)
    case (Data s t)
    then show ?thesis using Cons.IH
      by (cases s) (simp_all add: on_stdout_p4_def on_stderr_p4_def Let_def noisy_p4_def)
  next
    case (Close code)
    then show ?thesis using Cons.IH by (simp add: on_proc_close_def Let_def)
  next
    case (Error e)
    then show ?thesis using Cons.IH by (simp add: on_proc_error_def)
  qed
qed

lemma run_p5:
  assumes "\<not> list_ex is_close evs" and "\<not> list_ex is_error evs"
  shows "outcome (snd (foldl on_event_p5 (r, c) evs)) = outcome c \<and>
         fullOutput (snd (foldl on_event_p5 (r, c) evs)) = fullOutput c @ stream_text Stdout evs \<and>
         errorOutput (snd (foldl on_event_p5 (r, c) evs)) = errorOutput c @ stream_text Stderr evs"
  using assms
proof (induction evs arbitrary: r c)
  case Nil
  then show ?case by simp
next
  case (Cons ev evs)
  then have nc: "\<not> list_ex is_close evs" "\<not> list_ex is_error evs" by simp_all
  show ?case
  proof (cases ev)
    case (Data s t)
    then show ?thesis using Cons.IH[OF nc] by (cases s) simp_all
  next
    case (Close code)
    then show ?thesis using Cons.prems by simp
  next
    case (Error e)
    then show ?thesis using Cons.prems by simp
  qed
qed

lemma run_settled_p5:
  "outcome c \<noteq> Pending \<Longrightarrow> outcome (snd (foldl on_event_p5 (r, c) evs)) = outcome c"
proof (induction evs arbitrary: r c)
  case Nil
  then show ?case by simp
next
  case (Cons ev evs)
  have "outcome (snd (on_event_p5 (r, c) ev)) = outcome c"
    using Cons.prems
    by (cases ev; cases "outcome c") (auto simp: on_event_p5_Data)
  moreover obtain r' c' where rc: "on_event_p5 (r, c) ev = (r', c')"
    by (cases "on_event_p5 (r, c) ev")
  ultimately show ?case using Cons.IH[of c' r'] Cons.prems by simp
qed

lemma run_forwarded_p5:
  "forwarded (snd (foldl on_event_p5 (r, c) evs)) = forwarded c @ chunks_of evs"
proof (induction evs arbitrary: r c)
  case Nil
  then show ?case by simp
next
  case (Cons ev evs)
  show ?case
  proof (cases ev)
    case (Data s t)
    then show ?thesis using Cons.IH by (cases s) simp_all
  next
    case (Close code)
    then show ?thesis using Cons.IH by simp
  next
    case (Error e)
    then show ?thesis using Cons.IH by simp
  qed
qed

lemma execute_history_no_close:
  assumes "\<not> list_ex is_close evs"
  shows "history_of (fst (execute r p prompt w evs)) q =
           (if q = p then history_of r p @ [user_turn prompt] else history_of r q)"
proof (cases w)
  case True
  obtain r0 c0 where s: "execute_start r p prompt True = (r0, c0)"
    by (cases "execute_start r p prompt True")
  have "history_of (fst (foldl on_event (r0, c0) evs)) q = history_of r0 q"
    using run_no_close[OF assms] by simp
  moreover have "history_of r0 q = (if q = p then history_of r p @ [user_turn prompt] else history_of r q)"
    using execute_start_history[of r p prompt True q] s by simp
  ultimately show ?thesis using True s by (simp add: execute_def)
next
  case False
  then show ?thesis by (simp add: execute_def execute_start_history)
qed

lemma execute_history_close:
  assumes "\<not> list_ex is_close evs"
  shows "history_of (fst (execute r p prompt True (evs @ [Close code]))) q =
           (if q = p
            then history_of r p @ [user_turn prompt] @
                 (if code = Some 0 \<and> trim (stream_text Stdout evs) \<noteq> []
                  then [\<lparr>role = Model, turn_text = trim (stream_text Stdout evs)\<rparr>] else [])
            else history_of r q)"
proof -
  obtain r0 c0 where s: "execute_start r p prompt True = (r0, c0)"
    by (cases "execute_start r p prompt True")
  have c0: "target c0 = p" "fullOutput c0 = []"
    using execute_start_call(1,2)[of r p prompt True] s by simp_all
  have r0: "history_of r0 q = (if q = p then history_of r p @ [user_turn prompt] else history_of r q)"
    using execute_start_history[of r p prompt True q] s by simp
  have e: "execute r p prompt True (evs @ [Close code]) = foldl on_event (r0, c0) (evs @ [Close code])"
    by (simp only: execute_def s if_True)
  show ?thesis
    unfolding e run_then_close[OF assms, of r0 c0 code q] c0 r0 by auto
qed

text \<open>
  Claim C2, as the code has it. One call of \<^verbatim>\<open>execute\<close> for a target appends exactly one
  user turn to that target's history, already when the call starts and also when the input
  file cannot be written and nothing is spawned. When the child process closes with code
  \<open>code\<close>, exactly one assistant turn follows if and only if the code is 0 and the text
  accumulated from standard output is non-empty after trimming; chunks of standard error are
  not accumulated. Without a close event the history holds the user turn only, and the
  histories of other targets do not change.
\<close>

theorem history_growth:
  "history_of (fst (execute_start r p prompt w)) p = history_of r p @ [user_turn prompt] \<and>
   history_of (fst (execute r p prompt False evs)) p = history_of r p @ [user_turn prompt] \<and>
   (\<not> list_ex is_close evs \<longrightarrow>
      history_of (fst (execute r p prompt w evs)) p = history_of r p @ [user_turn prompt] \<and>
      history_of (fst (execute r p prompt True (evs @ [Close code]))) p =
        history_of r p @ [user_turn prompt] @
        (if code = Some 0 \<and> trim (stream_text Stdout evs) \<noteq> []
         then [\<lparr>role = Model, turn_text = trim (stream_text Stdout evs)\<rparr>] else []) \<and>
      (q \<noteq> p \<longrightarrow>
         history_of (fst (execute r p prompt True (evs @ [Close code]))) q = history_of r q))"
proof (intro conjI impI)
  show "history_of (fst (execute_start r p prompt w)) p = history_of r p @ [user_turn prompt]"
    by (simp add: execute_start_history)
  show "history_of (fst (execute r p prompt False evs)) p = history_of r p @ [user_turn prompt]"
    by (simp add: execute_def execute_start_history)
next
  assume nc: "\<not> list_ex is_close evs"
  show "history_of (fst (execute r p prompt w evs)) p = history_of r p @ [user_turn prompt]"
    by (simp add: execute_history_no_close[OF nc])
  show "history_of (fst (execute r p prompt True (evs @ [Close code]))) p =
        history_of r p @ [user_turn prompt] @
        (if code = Some 0 \<and> trim (stream_text Stdout evs) \<noteq> []
         then [\<lparr>role = Model, turn_text = trim (stream_text Stdout evs)\<rparr>] else [])"
    by (simp add: execute_history_close[OF nc])
  assume "q \<noteq> p"
  then show "history_of (fst (execute r p prompt True (evs @ [Close code]))) q = history_of r q"
    by (simp add: execute_history_close[OF nc])
qed

theorem history_growth_witness:
  "\<not> list_ex is_close [Data Stderr ''warn'', Data Stdout '' OK ''] \<and>
   history_of (fst (execute new_runner ''repos/a/x'' ''add README'' True
      ([Data Stderr ''warn'', Data Stdout '' OK ''] @ [Close (Some 0)]))) ''repos/a/x'' =
     [user_turn ''add README'', \<lparr>role = Model, turn_text = ''OK''\<rparr>] \<and>
   history_of (fst (execute new_runner ''repos/a/x'' ''add README'' True
      ([Data Stderr ''warn'', Data Stdout '' OK ''] @ [Close (Some 1)]))) ''repos/a/x'' =
     [user_turn ''add README'']"
  using history_growth [where r = new_runner and p = "''repos/a/x''" and prompt = "''add README''"
          and w = True and evs = "[Data Stderr ''warn'', Data Stdout '' OK '']" and code = "Some 0"]
        history_growth [where r = new_runner and p = "''repos/a/x''" and prompt = "''add README''"
          and w = True and evs = "[Data Stderr ''warn'', Data Stdout '' OK '']" and code = "Some 1"]
  by (simp add: new_runner_def history_of_def trim_def is_space_def)

text \<open>
  Claim C2 as stated fails for a process that writes to standard error only: it exits with
  code 0, its combined output is non-empty after trimming, the call resolves with success,
  and the history holds the user turn alone.
\<close>

theorem assistant_turn_counterexample:
  "trim (combined_output warn_run) = ''done'' \<and>
   outcome (snd (execute new_runner ''repos/a/x'' ''add README'' True warn_run)) =
     Resolved \<lparr>success = True, result_output = [], result_error = None, exitCode = Some 0\<rparr> \<and>
   history_of (fst (execute new_runner ''repos/a/x'' ''add README'' True warn_run)) ''repos/a/x'' =
     [user_turn ''add README'']"
  by (simp add: warn_run_def combined_output_def trim_def is_space_def execute_def
        execute_start_def Let_def on_stderr_def on_proc_close_def new_runner_def
        history_of_def push_turn_def user_turn_def reject_def resolve_def)

lemma execute_fails_resolved:
  assumes "\<not> list_ex is_close evs" and "\<not> list_ex is_error evs"
  shows "outcome (snd (execute r p prompt True (evs @ [Close code]))) =
           Resolved \<lparr>success = (code = Some 0), result_output = stream_text Stdout evs,
                     result_error = None, exitCode = code\<rparr>"
proof -
  obtain r0 c0 where s: "execute_start r p prompt True = (r0, c0)"
    by (cases "execute_start r p prompt True")
  have c0: "fullOutput c0 = []" "outcome c0 = Pending"
    using execute_start_call(2)[of r p prompt True] execute_start_call(5)[of r p prompt] s
    by simp_all
  obtain r1 c1 where f: "foldl on_event (r0, c0) evs = (r1, c1)"
    by (cases "foldl on_event (r0, c0) evs")
  have c1: "outcome c1 = Pending" "fullOutput c1 = stream_text Stdout evs"
    using run_pending[OF assms, of r0 c0] run_no_close[OF assms(1), of r0 c0] f c0 by simp_all
  show ?thesis
    by (simp add: execute_def s f on_proc_close_def c1)
qed

lemma execute_error_rejected:
  "outcome (snd (execute r p prompt True (Error e # evs))) = Rejected e"
proof -
  obtain r0 c0 where s: "execute_start r p prompt True = (r0, c0)"
    by (cases "execute_start r p prompt True")
  have c0: "outcome c0 = Pending"
    using execute_start_call(5)[of r p prompt] s by simp
  have "outcome (snd (foldl on_event (on_proc_error (r0, c0) e) evs)) = Rejected e"
    using run_settled[of "c0\<lparr>tempFile := None, outcome := Rejected e\<rparr>" "r0\<lparr>activeProcess := None\<rparr>" evs]
    by (simp add: on_proc_error_def c0)
  then show ?thesis by (simp add: execute_def s)
qed

lemma execute_p5_fails_resolved:
  assumes "\<not> list_ex is_close evs" and "\<not> list_ex is_error evs"
  shows "outcome (snd (execute_p5 r p prompt (evs @ [Close code]))) =
           Resolved (if code = Some 0
             then \<lparr>success = True, result_output = stream_text Stdout evs,
                   result_error = None, exitCode = code\<rparr>
             else \<lparr>success = False, result_output = stream_text Stdout evs,
                   result_error = Some (stream_text Stderr evs), exitCode = code\<rparr>)"
proof -
  obtain r0 c0 where s: "execute_start_p5 r p prompt = (r0, c0)"
    by (cases "execute_start_p5 r p prompt")
  then have c0: "fullOutput c0 = []" "errorOutput c0 = []" "outcome c0 = Pending"
    by (auto simp: execute_start_p5_def Let_def)
  obtain r1 c1 where f: "foldl on_event_p5 (r0, c0) evs = (r1, c1)"
    by (cases "foldl on_event_p5 (r0, c0) evs")
  have c1: "outcome c1 = Pending" "fullOutput c1 = stream_text Stdout evs"
    "errorOutput c1 = stream_text Stderr evs"
    using run_p5[OF assms, of r0 c0] f c0 by simp_all
  show ?thesis
    by (simp add: execute_p5_def s f c1)
qed

lemma execute_p5_error_rejected:
  "outcome (snd (execute_p5 r p prompt (Error e # evs))) =
     Rejected (''Failed to start Gemini CLI: '' @ e)"
proof -
  obtain r0 c0 where s: "execute_start_p5 r p prompt = (r0, c0)"
    by (cases "execute_start_p5 r p prompt")
  then have c0: "outcome c0 = Pending"
    by (auto simp: execute_start_p5_def Let_def)
  show ?thesis
    using run_settled_p5[of "c0\<lparr>outcome := Rejected (''Failed to start Gemini CLI: '' @ e)\<rparr>"
        "r0\<lparr>activeProcess := None\<rparr>" evs]
    by (simp add: execute_p5_def s c0)
qed

text \<open>
  Claim C5. A child process that starts, emits no \<^verbatim>\<open>error\<close> and closes with a code other
  than 0 (or with none, when a signal ended it) makes the call resolve with
  \<open>success = False\<close>, the accumulated standard output and the exit code; the oldest variant
  of the runner adds the accumulated standard error as \<^verbatim>\<open>error\<close>. A process that cannot be
  started emits \<^verbatim>\<open>error\<close> first, and the call is rejected whatever follows; so it is when the
  input file cannot be written.
\<close>

theorem nonzero_exit_resolves:
  "(\<not> list_ex is_close evs \<and> \<not> list_ex is_error evs \<and> code \<noteq> Some 0 \<longrightarrow>
      outcome (snd (execute r p prompt True (evs @ [Close code]))) =
        Resolved \<lparr>success = False, result_output = stream_text Stdout evs,
                  result_error = None, exitCode = code\<rparr> \<and>
      outcome (snd (execute_p5 r p prompt (evs @ [Close code]))) =
        Resolved \<lparr>success = False, result_output = stream_text Stdout evs,
                  result_error = Some (stream_text Stderr evs), exitCode = code\<rparr>) \<and>
   outcome (snd (execute r p prompt True (Error e # evs'))) = Rejected e \<and>
   outcome (snd (execute_p5 r p prompt (Error e # evs'))) =
     Rejected (''Failed to start Gemini CLI: '' @ e) \<and>
   outcome (snd (execute r p prompt False evs')) = Rejected ''write failed''"
  by (simp add: execute_fails_resolved execute_p5_fails_resolved execute_error_rejected
        execute_p5_error_rejected)
     (simp add: execute_def execute_start_call)

theorem nonzero_exit_resolves_witness:
  "\<not> list_ex is_close [Data Stdout ''a'', Data Stderr ''b''] \<and>
   \<not> list_ex is_error [Data Stdout ''a'', Data Stderr ''b''] \<and>
   Some 1 \<noteq> Some (0::int) \<and>
   outcome (snd (execute new_runner ''repos/a/x'' ''hi'' True
      [Data Stdout ''a'', Data Stderr ''b'', Close (Some 1)])) =
     Resolved \<lparr>success = False, result_output = ''a'', result_error = None,
               exitCode = Some 1\<rparr> \<and>
   outcome (snd (execute_p5 new_runner ''repos/a/x'' ''hi''
      [Data Stdout ''a'', Data Stderr ''b'', Close (Some 1)])) =
     Resolved \<lparr>success = False, result_output = ''a'', result_error = Some ''b'',
               exitCode = Some 1\<rparr> \<and>
   outcome (snd (execute new_runner ''repos/a/x'' ''hi'' True [Error ''ENOENT'', Close (Some (- 2))])) =
     Rejected ''ENOENT''"
  using nonzero_exit_resolves [where r = new_runner and p = "''repos/a/x''" and prompt = "''hi''"
          and evs = "[Data Stdout ''a'', Data Stderr ''b'']" and code = "Some 1"
          and e = "''ENOENT''" and evs' = "[Close (Some (- 2))]"]
  by simp

lemma run_fullOutput_p4:
  "fullOutput (snd (foldl on_event_p4 (r, c) evs)) = fullOutput c @ stream_text Stdout evs"
proof (induction evs arbitrary: r c)
  case Nil
  then show ?case by simp
next
  case (Cons ev evs)
  show ?case
  proof (cases ev)
    case (Data s t)
    then show ?thesis using Cons.IH
      by (cases s) (simp_all add: on_stdout_p4_def on_stderr_p4_def Let_def)
  next
    case (Close code)
    then show ?thesis using Cons.IH by (simp add: on_proc_close_def Let_def)
  next
    case (Error e)
    then show ?thesis using Cons.IH by (simp add: on_proc_error_def)
  qed
qed

lemma run_pending_p4:
  assumes "\<not> list_ex is_close evs" and "\<not> list_ex is_error evs"
  shows "outcome (snd (foldl on_event_p4 (r, c) evs)) = outcome c"
  using assms
proof (induction evs arbitrary: r c)
  case Nil
  then show ?case by simp
next
  case (Cons ev evs)
  then have nc: "\<not> list_ex is_close evs" "\<not> list_ex is_error evs" by simp_all
  show ?case
  proof (cases ev)
    case (Data s t)
    then show ?thesis using Cons.IH[OF nc]
      by (cases s) (simp_all add: on_stdout_p4_def on_stderr_p4_def Let_def)
  next
    case (Close code)
    then show ?thesis using Cons.prems by simp
  next
    case (Error e)
    then show ?thesis using Cons.prems by simp
  qed
qed

lemma execute_p4_output:
  "fullOutput (snd (execute_p4 r p prompt True evs)) = stream_text Stdout evs"
proof -
  obtain r0 c0 where s: "execute_start r p prompt True = (r0, c0)"
    by (cases "execute_start r p prompt True")
  have c0: "fullOutput c0 = []"
    using execute_start_call(2)[of r p prompt True] s by simp
  show ?thesis
    using run_fullOutput_p4[of r0 c0 evs] by (simp add: execute_p4_def s c0)
qed

lemma execute_p4_resolved:
  assumes "\<not> list_ex is_close evs" and "\<not> list_ex is_error evs"
  shows "outcome (snd (execute_p4 r p prompt True (evs @ [Close code]))) =
           Resolved \<lparr>success = (code = Some 0), result_output = stream_text Stdout evs,
                     result_error = None, exitCode = code\<rparr>"
proof -
  obtain r0 c0 where s: "execute_start r p prompt True = (r0, c0)"
    by (cases "execute_start r p prompt True")
  have c0: "fullOutput c0 = []" "outcome c0 = Pending"
    using execute_start_call(2)[of r p prompt True] execute_start_call(5)[of r p prompt] s
    by simp_all
  obtain r1 c1 where f: "foldl on_event_p4 (r0, c0) evs = (r1, c1)"
    by (cases "foldl on_event_p4 (r0, c0) evs")
  have c1: "outcome c1 = Pending" "fullOutput c1 = stream_text Stdout evs"
    using run_pending_p4[OF assms, of r0 c0] run_fullOutput_p4[of r0 c0 evs] f c0 by simp_all
  show ?thesis
    by (simp add: execute_p4_def s f on_proc_close_def c1)
qed

text \<open>
  Claim C8, as the code has it. In gemini.js and in the oldest variant every chunk of either
  stream reaches \<^verbatim>\<open>onOutput\<close> with its stream tag, in order, while the console echo leaves
  out the chunks of standard error that contain \<^verbatim>\<open>Loaded cached credentials\<close>. The
  PowerShell variant forwards the chunks without a noise substring only; every chunk of its
  standard output, noise or not, is still accumulated, and the accumulated text is the
  \<^verbatim>\<open>output\<close> of the result when the process closes.
\<close>

theorem output_forwarding:
  "forwarded (snd (execute r p prompt True evs)) = chunks_of evs \<and>
   echoed (snd (execute r p prompt True evs)) =
     filter (\<lambda>ch. fst ch = Stdout \<or> \<not> str_includes (snd ch) ''Loaded cached credentials'')
       (chunks_of evs) \<and>
   forwarded (snd (execute_p5 r p prompt evs)) = chunks_of evs \<and>
   forwarded (snd (execute_p4 r p prompt True evs)) =
     filter (\<lambda>ch. \<not> noisy_p4 ch) (chunks_of evs) \<and>
   fullOutput (snd (execute_p4 r p prompt True evs)) = stream_text Stdout evs \<and>
   (\<not> list_ex is_close evs \<and> \<not> list_ex is_error evs \<longrightarrow>
      outcome (snd (execute_p4 r p prompt True (evs @ [Close code]))) =
        Resolved \<lparr>success = (code = Some 0), result_output = stream_text Stdout evs,
                  result_error = None, exitCode = code\<rparr>)"
proof -
  obtain r0 c0 where s: "execute_start r p prompt True = (r0, c0)"
    by (cases "execute_start r p prompt True")
  have c0: "forwarded c0 = []" "echoed c0 = []"
    using execute_start_call(3,4)[of r p prompt True] s by simp_all
  obtain r5 c5 where s5: "execute_start_p5 r p prompt = (r5, c5)"
    by (cases "execute_start_p5 r p prompt")
  then have c5: "forwarded c5 = []"
    by (auto simp: execute_start_p5_def Let_def)
  have fw: "forwarded (snd (execute r p prompt True evs)) = chunks_of evs \<and>
      echoed (snd (execute r p prompt True evs)) =
        filter (\<lambda>ch. fst ch = Stdout \<or> \<not> str_includes (snd ch) ''Loaded cached credentials'')
          (chunks_of evs) \<and>
      forwarded (snd (execute_p5 r p prompt evs)) = chunks_of evs \<and>
      forwarded (snd (execute_p4 r p prompt True evs)) =
        filter (\<lambda>ch. \<not> noisy_p4 ch) (chunks_of evs)"
    using run_forwarded[of r0 c0 evs] run_forwarded_p4[of r0 c0 evs] run_forwarded_p5[of r5 c5 evs]
    by (simp add: execute_def execute_p4_def execute_p5_def s s5 c0 c5)
  then show ?thesis
    by (simp add: execute_p4_output execute_p4_resolved)
qed

theorem output_forwarding_witness:
  "forwarded (snd (execute new_runner ''repos/a/x'' ''hi'' True noise_run)) =
     [(Stdout, ''YOLO mode is enabled''), (Stderr, ''Loaded cached credentials''), (Stdout, ''ok'')] \<and>
   echoed (snd (execute new_runner ''repos/a/x'' ''hi'' True noise_run)) =
     [(Stdout, ''YOLO mode is enabled''), (Stdout, ''ok'')] \<and>
   \<not> list_ex is_close noise_chunks \<and> \<not> list_ex is_error noise_chunks \<and>
   forwarded (snd (execute_p4 new_runner ''repos/a/x'' ''hi'' True noise_chunks)) = [(Stdout, ''ok'')] \<and>
   fullOutput (snd (execute_p4 new_runner ''repos/a/x'' ''hi'' True noise_chunks)) =
     ''YOLO mode is enabledok'' \<and>
   outcome (snd (execute_p4 new_runner ''repos/a/x'' ''hi'' True (noise_chunks @ [Close (Some 0)]))) =
     Resolved \<lparr>success = True, result_output = ''YOLO mode is enabledok'',
               result_error = None, exitCode = Some 0\<rparr>"
  using output_forwarding [where r = new_runner and p = "''repos/a/x''" and prompt = "''hi''"
          and evs = noise_run]
        output_forwarding [where r = new_runner and p = "''repos/a/x''" and prompt = "''hi''"
          and evs = noise_chunks and code = "Some 0"]
  by (simp add: noise_run_def noise_chunks_def noisy_p4_def)

text \<open>
  Claim C8 as stated fails in the PowerShell variant: of three chunks, the two that contain
  a noise substring never reach \<^verbatim>\<open>onOutput\<close>.
\<close>

theorem output_forwarding_counterexample:
  "chunks_of noise_run =
     [(Stdout, ''YOLO mode is enabled''), (Stderr, ''Loaded cached credentials''), (Stdout, ''ok'')] \<and>
   forwarded (snd (execute_p4 new_runner ''repos/a/x'' ''hi'' True noise_run)) = [(Stdout, ''ok'')]"
  by (simp add: noise_run_def execute_p4_def execute_start_def Let_def on_stdout_p4_def
        on_stderr_p4_def on_proc_close_def)

text \<open>
  Claim C4 at failing inputs. A process is started for one target, and \<^verbatim>\<open>cancel\<close> called
  for another target, which has no process, returns true and kills that process. With no
  process at all, two calls of \<^verbatim>\<open>cancel\<close> both return false. When a second target's
  process is started while the first still runs and the first then closes, the one field is
  cleared: \<^verbatim>\<open>cancel\<close> for the second target returns false and kills nothing, though its
  process runs.
\<close>

theorem cancel_other_target:
  "activeProcess (fst (execute_start new_runner ''repos/a/x'' ''add README'' True)) = Some 0 \<and>
   spawned (fst (execute_start new_runner ''repos/a/x'' ''add README'' True)) = [''repos/a/x''] \<and>
   fst (cancel (fst (execute_start new_runner ''repos/a/x'' ''add README'' True)) ''repos/b/y'') = True \<and>
   killed (snd (cancel (fst (execute_start new_runner ''repos/a/x'' ''add README'' True)) ''repos/b/y'')) = [0] \<and>
   fst (cancel new_runner ''repos/b/y'') = False \<and>
   fst (cancel (snd (cancel new_runner ''repos/b/y'')) ''repos/b/y'') = False \<and>
   proc (snd two_started) = Some 1 \<and>
   spawned (fst two_started) = [''repos/a/x'', ''repos/b/y''] \<and>
   activeProcess (fst two_started) = Some 1 \<and>
   activeProcess first_closed = None \<and>
   cancel first_closed ''repos/b/y'' = (False, first_closed) \<and>
   killed first_closed = []"
  by (simp add: cancel_def execute_start_def Let_def new_runner_def push_turn_def
        two_started_def first_closed_def on_proc_close_def history_of_def trim_def)

section \<open>Properties of the client connection manager\<close>

lemma connect_live:
  assumes "tracked st = Some t" and "tstate t = OPEN \<or> tstate t = CONNECTING"
  shows "connect st ok = st"
  using assms by (auto simp: connect_def)

lemma tracked_fresh:
  "tracked (st\<lparr>wsRef := Some (length (transports st)), transports := transports st @ [t]\<rparr>) = Some t"
  by (simp add: tracked_def)

lemma connect_after_connect: "connect (connect st True) ok = connect st True"
proof (cases "\<exists>t. tracked st = Some t \<and> (tstate t = OPEN \<or> tstate t = CONNECTING)")
  case True
  then obtain t where t: "tracked st = Some t" "tstate t = OPEN \<or> tstate t = CONNECTING" by blast
  then show ?thesis by (simp add: connect_live[OF t])
next
  case False
  let ?n = "\<lparr>tstate = CONNECTING, url = ws_url (serverUrl st), frames = []\<rparr>"
  have c: "connect st True = st\<lparr>wsRef := Some (length (transports st)), transports := transports st @ [?n]\<rparr>"
    using False by (auto simp: connect_def split: option.splits)
  show ?thesis
    unfolding c by (rule connect_live[OF tracked_fresh]) simp
qed

text \<open>
  What holds of \<^verbatim>\<open>connect()\<close>: when the transport the hook holds in \<^verbatim>\<open>wsRef.current\<close> is
  open or opening, the call returns the state as it is, whether or not a new transport could
  be made, and so does a second call; and after a call that made a transport, a further call
  changes nothing.
\<close>

theorem connect_idempotent:
  "(tracked st = Some t \<and> (tstate t = OPEN \<or> tstate t = CONNECTING) \<longrightarrow>
      connect st ok = st \<and> connect (connect st ok) ok' = st) \<and>
   connect (connect st True) ok = connect st True"
  by (auto simp: connect_live connect_after_connect)

theorem connect_idempotent_witness:
  "tracked open_hook = Some \<lparr>tstate = OPEN, url = ''ws://localhost:3001'',
       frames = [(''auth'', Some (JObj [(''secret'', JStr ''s3cret'')]))]\<rparr> \<and>
   connect (connect open_hook True) True = open_hook \<and>
   length (live (connect (connect open_hook True) True)) = 1 \<and>
   length (transports (connect (connect open_hook True) True)) = 1"
  using connect_idempotent [where st = open_hook and ok = True and ok' = True
          and t = "\<lparr>tstate = OPEN, url = ''ws://localhost:3001'',
                     frames = [(''auth'', Some (JObj [(''secret'', JStr ''s3cret'')]))]\<rparr>"]
  by (simp add: open_hook_def new_hook_def connect_def tracked_def transport_open_def live_def
        ws_url_def Let_def)

text \<open>
  Claim C9 at a failing input. After connect, open, disconnect, connect and open, the close
  of the first transport clears \<^verbatim>\<open>wsRef.current\<close> although the second transport is open.
  A transport is open in that state, and \<^verbatim>\<open>connect()\<close> makes another: two transports are
  live after the call.
\<close>

theorem connect_second_transport:
  "map tstate (transports stale_close_hook) = [CLOSED, OPEN] \<and>
   wsRef stale_close_hook = None \<and>
   length (live stale_close_hook) = 1 \<and>
   map tstate (transports (connect stale_close_hook True)) = [CLOSED, OPEN, CONNECTING] \<and>
   wsRef (connect stale_close_hook True) = Some 2 \<and>
   length (live (connect stale_close_hook True)) = 2"
  by code_simp

text \<open>
  Claim C3 at its failing inputs. A request is made on an open transport and registers its
  two handlers. When its result arrives, the promise is resolved and the result handler is
  removed, but the error handler stays in the map. When its timer fires instead, the promise
  is rejected and both handlers stay. When the server's \<^verbatim>\<open>error\<close> for it arrives, which has
  no payload, the error handler raises on reading its argument: the promise stays pending
  and both handlers stay. Both handlers are removed when an \<^verbatim>\<open>error\<close> carries the request's
  type in its payload and when the transport is not open at the call.
\<close>

theorem request_leaks_handlers:
  "messageHandlers pending_request ''clone_repo_result'' = Some [OnResult 0 ''clone_repo''] \<and>
   messageHandlers pending_request ''error'' = Some [OnError 0 ''clone_repo''] \<and>
   settled (on_inbound pending_request (Some clone_result)) 0 =
     Some (Resolved (Some (JObj [(''action'', JStr ''cloned'')]))) \<and>
   messageHandlers (on_inbound pending_request (Some clone_result)) ''clone_repo_result'' = Some [] \<and>
   messageHandlers (on_inbound pending_request (Some clone_result)) ''error'' =
     Some [OnError 0 ''clone_repo''] \<and>
   settled (timeout_fires pending_request 0) 0 = Some (Rejected ''Request timeout'') \<and>
   messageHandlers (timeout_fires pending_request 0) ''clone_repo_result'' =
     Some [OnResult 0 ''clone_repo''] \<and>
   messageHandlers (timeout_fires pending_request 0) ''error'' = Some [OnError 0 ''clone_repo''] \<and>
   settled (on_inbound pending_request (Some error_from_server)) 0 = Some Pending \<and>
   timeouts (on_inbound pending_request (Some error_from_server)) = [0] \<and>
   messageHandlers (on_inbound pending_request (Some error_from_server)) ''clone_repo_result'' =
     Some [OnResult 0 ''clone_repo''] \<and>
   messageHandlers (on_inbound pending_request (Some error_from_server)) ''error'' =
     Some [OnError 0 ''clone_repo''] \<and>
   settled (on_inbound pending_request (Some error_with_payload)) 0 =
     Some (Rejected ''Handler error: push rejected'') \<and>
   messageHandlers (on_inbound pending_request (Some error_with_payload)) ''clone_repo_result'' = Some [] \<and>
   messageHandlers (on_inbound pending_request (Some error_with_payload)) ''error'' = Some [] \<and>
   settled (snd (request (new_hook ''http://localhost:3001'' ''s3cret'') ''clone_repo'' None)) 0 =
     Some (Rejected ''Not connected'') \<and>
   messageHandlers (snd (request (new_hook ''http://localhost:3001'' ''s3cret'') ''clone_repo'' None))
     ''clone_repo_result'' = Some [] \<and>
   messageHandlers (snd (request (new_hook ''http://localhost:3001'' ''s3cret'') ''clone_repo'' None))
     ''error'' = Some []"
  by code_simp

section \<open>Properties of the repository state manager\<close>

lemma then_do_Inr:
  assumes "then_do m f w = (Inr b, w')"
  obtains a w1 where "m w = (Inr a, w1)" and "f a w1 = (Inr b, w')"
  using assms by (auto simp: then_do_def split: prod.splits sum.splits)

lemma then_do_ok: "m w = (Inr a, w1) \<Longrightarrow> then_do m f w = f a w1"
  by (simp add: then_do_def)

lemma then_do_fail: "m w = (Inl e, w1) \<Longrightarrow> then_do m f w = (Inl e, w1)"
  by (simp add: then_do_def)

lemma in_copy_ok:
  assumes "copies w p = Some c" and "\<not> fails w p cmd"
  shows "in_copy p cmd f w =
           (Inr (fst (f c)),
            w\<lparr>journal := journal w @ [(p, cmd)], copies := (copies w)(p \<mapsto> snd (f c))\<rparr>)"
  using assms by (simp add: in_copy_def Let_def split: prod.splits)

lemma in_copy_fail:
  assumes "copies w p = None \<or> fails w p cmd"
  shows "in_copy p cmd f w = (Inl (CommandFailed p cmd), w\<lparr>journal := journal w @ [(p, cmd)]\<rparr>)"
  using assms by (auto simp: in_copy_def Let_def split: option.splits)

lemma in_copy_Inr:
  assumes "in_copy p cmd f w = (Inr a, w')"
  obtains c where "copies w p = Some c" and "\<not> fails w p cmd" and "a = fst (f c)"
    and "w' = w\<lparr>journal := journal w @ [(p, cmd)], copies := (copies w)(p \<mapsto> snd (f c))\<rparr>"
proof (cases "copies w p = None \<or> fails w p cmd")
  case True
  from in_copy_fail[OF this, of f] assms show ?thesis by simp
next
  case False
  then obtain c where c: "copies w p = Some c" "\<not> fails w p cmd" by auto
  from in_copy_ok[OF c, of f] assms that[OF c] show ?thesis by simp
qed

text \<open>Whatever a command in a working copy does, it makes no push and no directory.\<close>

lemma in_copy_frame:
  "pushes (snd (in_copy p cmd f w)) = pushes w \<and> dirs (snd (in_copy p cmd f w)) = dirs w \<and>
   fails (snd (in_copy p cmd f w)) = fails w"
  by (cases "copies w p = None \<or> fails w p cmd")
     (auto simp: in_copy_fail in_copy_ok)

lemma in_copy_copies:
  assumes "copies w p = Some c"
  shows "copies (snd (in_copy p cmd f w)) p = Some c \<and> (\<exists>e. fst (in_copy p cmd f w) = Inl e) \<or>
         copies (snd (in_copy p cmd f w)) p = Some (snd (f c)) \<and> fst (in_copy p cmd f w) = Inr (fst (f c))"
  using assms
  by (cases "fails w p cmd") (auto simp: in_copy_fail in_copy_ok)





lemma cloneOrPull_result:
  assumes "fst (cloneOrPull reposDir owner repo tok w) = Inr r"
  shows "path r = getRepoPath reposDir owner repo \<and>
         (action r = Cloned \<longleftrightarrow> getRepoPath reposDir owner repo \<notin> dirs w) \<and>
         (action r = Pulled \<longleftrightarrow> getRepoPath reposDir owner repo \<in> dirs w)"
  using assms
  by (auto simp: cloneOrPull_def Let_def then_do_def or_else_def return_io_def
        split: if_splits prod.splits sum.splits)

lemma cloneOrPull_clones:
  assumes "getRepoPath reposDir owner repo \<notin> dirs w"
    and "\<not> fails w (dirname (getRepoPath reposDir owner repo)) MkDir"
    and "\<not> fails w (getRepoPath reposDir owner repo) (Clone (remote_url tok owner repo))"
  shows "fst (cloneOrPull reposDir owner repo tok w) =
           Inr \<lparr>action = Cloned, path = getRepoPath reposDir owner repo\<rparr> \<and>
         getRepoPath reposDir owner repo \<in> dirs (snd (cloneOrPull reposDir owner repo tok w)) \<and>
         dirname (getRepoPath reposDir owner repo) \<in> dirs (snd (cloneOrPull reposDir owner repo tok w)) \<and>
         (\<exists>c. copies (snd (cloneOrPull reposDir owner repo tok w)) (getRepoPath reposDir owner repo) = Some c \<and>
              origin c = remote_url tok owner repo)"
proof -
  have t: "take (length p) p \<in> (\<lambda>n. take n p) ` {0..<Suc (length p)}" for p :: path
    by (rule imageI) simp
  show ?thesis
    using assms t[of "dirname (getRepoPath reposDir owner repo)"]
    by (simp add: cloneOrPull_def Let_def then_do_def return_io_def mkdirSync_def git_clone_def)
qed

lemma cloneOrPull_pulls:
  assumes "getRepoPath reposDir owner repo \<in> dirs w"
    and "copies w (getRepoPath reposDir owner repo) = Some c"
  shows "(\<not> fails w (getRepoPath reposDir owner repo) (Pull ''origin'' ''main'') \<longrightarrow>
            fst (cloneOrPull reposDir owner repo tok w) =
              Inr \<lparr>action = Pulled, path = getRepoPath reposDir owner repo\<rparr> \<and>
            journal (snd (cloneOrPull reposDir owner repo tok w)) =
              journal w @ [(getRepoPath reposDir owner repo, Pull ''origin'' ''main'')]) \<and>
         (fails w (getRepoPath reposDir owner repo) (Pull ''origin'' ''main'') \<and>
          \<not> fails w (getRepoPath reposDir owner repo) (Pull ''origin'' ''master'') \<longrightarrow>
            fst (cloneOrPull reposDir owner repo tok w) =
              Inr \<lparr>action = Pulled, path = getRepoPath reposDir owner repo\<rparr> \<and>
            journal (snd (cloneOrPull reposDir owner repo tok w)) =
              journal w @ [(getRepoPath reposDir owner repo, Pull ''origin'' ''main''),
                           (getRepoPath reposDir owner repo, Pull ''origin'' ''master'')])"
  using assms
  by (simp add: cloneOrPull_def Let_def then_do_def or_else_def return_io_def simpleGit_def
        git_pull_def in_copy_def)

text \<open>
  Claim C7. A call of \<^verbatim>\<open>cloneOrPull\<close> that returns gives the resolved path, with action
  \<^verbatim>\<open>cloned\<close> exactly when that path did not exist before the call and \<^verbatim>\<open>pulled\<close> exactly
  when it did. It returns \<^verbatim>\<open>cloned\<close> when the path did not exist and neither making the
  owner's directory nor the clone fails, and then the path and its parent exist and hold a
  working copy of the remote URL built with the credential. It returns \<^verbatim>\<open>pulled\<close> when the
  path holds a working copy and the pull of \<^verbatim>\<open>main\<close> succeeds, or fails and the pull of
  \<^verbatim>\<open>master\<close>, tried next, succeeds.
\<close>

theorem cloneOrPull_action:
  "(fst (cloneOrPull reposDir owner repo tok w) = Inr r \<longrightarrow>
      path r = getRepoPath reposDir owner repo \<and>
      (action r = Cloned \<longleftrightarrow> getRepoPath reposDir owner repo \<notin> dirs w) \<and>
      (action r = Pulled \<longleftrightarrow> getRepoPath reposDir owner repo \<in> dirs w)) \<and>
   (getRepoPath reposDir owner repo \<notin> dirs w \<and>
    \<not> fails w (dirname (getRepoPath reposDir owner repo)) MkDir \<and>
    \<not> fails w (getRepoPath reposDir owner repo) (Clone (remote_url tok owner repo)) \<longrightarrow>
      fst (cloneOrPull reposDir owner repo tok w) =
        Inr \<lparr>action = Cloned, path = getRepoPath reposDir owner repo\<rparr> \<and>
      getRepoPath reposDir owner repo \<in> dirs (snd (cloneOrPull reposDir owner repo tok w)) \<and>
      dirname (getRepoPath reposDir owner repo) \<in> dirs (snd (cloneOrPull reposDir owner repo tok w)) \<and>
      (\<exists>c. copies (snd (cloneOrPull reposDir owner repo tok w)) (getRepoPath reposDir owner repo) = Some c \<and>
           origin c = remote_url tok owner repo)) \<and>
   (getRepoPath reposDir owner repo \<in> dirs w \<and>
    copies w (getRepoPath reposDir owner repo) = Some c \<and>
    \<not> fails w (getRepoPath reposDir owner repo) (Pull ''origin'' ''main'') \<longrightarrow>
      fst (cloneOrPull reposDir owner repo tok w) =
        Inr \<lparr>action = Pulled, path = getRepoPath reposDir owner repo\<rparr> \<and>
      journal (snd (cloneOrPull reposDir owner repo tok w)) =
        journal w @ [(getRepoPath reposDir owner repo, Pull ''origin'' ''main'')]) \<and>
   (getRepoPath reposDir owner repo \<in> dirs w \<and>
    copies w (getRepoPath reposDir owner repo) = Some c \<and>
    fails w (getRepoPath reposDir owner repo) (Pull ''origin'' ''main'') \<and>
    \<not> fails w (getRepoPath reposDir owner repo) (Pull ''origin'' ''master'') \<longrightarrow>
      fst (cloneOrPull reposDir owner repo tok w) =
        Inr \<lparr>action = Pulled, path = getRepoPath reposDir owner repo\<rparr> \<and>
      journal (snd (cloneOrPull reposDir owner repo tok w)) =
        journal w @ [(getRepoPath reposDir owner repo, Pull ''origin'' ''main''),
                     (getRepoPath reposDir owner repo, Pull ''origin'' ''master'')])"
proof (intro conjI impI)
  assume "fst (cloneOrPull reposDir owner repo tok w) = Inr r"
  from cloneOrPull_result[OF this]
  show "path r = getRepoPath reposDir owner repo"
    and "(action r = Cloned) = (getRepoPath reposDir owner repo \<notin> dirs w)"
    and "(action r = Pulled) = (getRepoPath reposDir owner repo \<in> dirs w)"
    by simp_all
next
  assume a: "getRepoPath reposDir owner repo \<notin> dirs w \<and>
    \<not> fails w (dirname (getRepoPath reposDir owner repo)) MkDir \<and>
    \<not> fails w (getRepoPath reposDir owner repo) (Clone (remote_url tok owner repo))"
  from cloneOrPull_clones[of reposDir owner repo w tok] a
  show "fst (cloneOrPull reposDir owner repo tok w) =
        Inr \<lparr>action = Cloned, path = getRepoPath reposDir owner repo\<rparr>"
    and "getRepoPath reposDir owner repo \<in> dirs (snd (cloneOrPull reposDir owner repo tok w))"
    and "dirname (getRepoPath reposDir owner repo) \<in> dirs (snd (cloneOrPull reposDir owner repo tok w))"
    and "\<exists>c. copies (snd (cloneOrPull reposDir owner repo tok w)) (getRepoPath reposDir owner repo) = Some c \<and>
           origin c = remote_url tok owner repo"
    by simp_all
next
  assume a: "getRepoPath reposDir owner repo \<in> dirs w \<and>
    copies w (getRepoPath reposDir owner repo) = Some c \<and>
    \<not> fails w (getRepoPath reposDir owner repo) (Pull ''origin'' ''main'')"
  from cloneOrPull_pulls[of reposDir owner repo w c tok] a
  show "fst (cloneOrPull reposDir owner repo tok w) =
        Inr \<lparr>action = Pulled, path = getRepoPath reposDir owner repo\<rparr>"
    and "journal (snd (cloneOrPull reposDir owner repo tok w)) =
        journal w @ [(getRepoPath reposDir owner repo, Pull ''origin'' ''main'')]"
    by simp_all
next
  assume a: "getRepoPath reposDir owner repo \<in> dirs w \<and>
    copies w (getRepoPath reposDir owner repo) = Some c \<and>
    fails w (getRepoPath reposDir owner repo) (Pull ''origin'' ''main'') \<and>
    \<not> fails w (getRepoPath reposDir owner repo) (Pull ''origin'' ''master'')"
  from cloneOrPull_pulls[of reposDir owner repo w c tok] a
  show "fst (cloneOrPull reposDir owner repo tok w) =
        Inr \<lparr>action = Pulled, path = getRepoPath reposDir owner repo\<rparr>"
    and "journal (snd (cloneOrPull reposDir owner repo tok w)) =
        journal w @ [(getRepoPath reposDir owner repo, Pull ''origin'' ''main''),
                     (getRepoPath reposDir owner repo, Pull ''origin'' ''master'')]"
    by simp_all
qed

lemma cloned_world_eval:
  "[''repos'', ''a'', ''x''] \<notin> dirs empty_world"
  "[''repos'', ''a'', ''x''] \<in> dirs cloned_world"
  "fails empty_world = (\<lambda>p cmd. False)"
  "fails cloned_world = (\<lambda>p cmd. False)"
  "copies cloned_world [''repos'', ''a'', ''x''] =
     Some \<lparr>config = [], unstaged = [], staged = [], commits = [],
           origin = ''https://tok@github.com/a/x.git'', head_branch = ''main''\<rparr>"
  "pushes cloned_world = []"
  by (simp_all add: cloned_world_def empty_world_def cloneOrPull_def Let_def then_do_def
        return_io_def mkdirSync_def git_clone_def getRepoPath_def dirname_def remote_url_def)

theorem cloneOrPull_action_witness:
  "getRepoPath [''repos''] ''a'' ''x'' \<notin> dirs empty_world \<and>
   fst (cloneOrPull [''repos''] ''a'' ''x'' ''tok'' empty_world) =
     Inr \<lparr>action = Cloned, path = [''repos'', ''a'', ''x'']\<rparr> \<and>
   getRepoPath [''repos''] ''a'' ''x'' \<in> dirs cloned_world \<and>
   fst (cloneOrPull [''repos''] ''a'' ''x'' ''tok'' cloned_world) =
     Inr \<lparr>action = Pulled, path = [''repos'', ''a'', ''x'']\<rparr>"
  using cloneOrPull_action [where reposDir = "[''repos'']" and owner = "''a''" and repo = "''x''"
          and tok = "''tok''" and w = empty_world]
        cloneOrPull_action [where reposDir = "[''repos'']" and owner = "''a''" and repo = "''x''"
          and tok = "''tok''" and w = cloned_world
          and c = "\<lparr>config = [], unstaged = [], staged = [], commits = [],
                     origin = ''https://tok@github.com/a/x.git'', head_branch = ''main''\<rparr>"]
  by (simp add: cloned_world_eval getRepoPath_def)




end
